theory Spec2Isabelle
  imports Main "HOL-Library.Word"
begin

unbundle bit_operations_syntax

section \<open>The route watcher \<^verbatim>\<open>c_src/rtm_watcher.c\<close>\<close>

text \<open>
  The watcher reads rtnetlink messages from a netlink socket and reports every route
  change of the main table to its parent as a binary record on standard output.

  Machine model. The program is Linux-only (netlink); it is modelled for the LP64
  little-endian ABI (x86-64, aarch64): \<^verbatim>\<open>int\<close> and \<^verbatim>\<open>unsigned int\<close> are \<open>32 word\<close>,
  \<^verbatim>\<open>size_t\<close> and pointers are \<open>64 word\<close>, \<^verbatim>\<open>unsigned short\<close> is \<open>16 word\<close>,
  \<^verbatim>\<open>unsigned char\<close> is \<open>8 word\<close>. Memory is a function from addresses to bytes; a
  multi-byte field is read least significant byte first.

  Output. Every \<^verbatim>\<open>writev\<close> call on standard output is recorded as the list of its
  segments (the \<^verbatim>\<open>iov\<close> array, in order), each segment being the bytes it transfers.
  The return value of \<^verbatim>\<open>writev\<close> is ignored by the program; the model takes every
  call to transfer all of its bytes.
\<close>

type_synonym byte = "8 word"
type_synonym addr = "64 word"
type_synonym memory = "addr \<Rightarrow> byte"

text \<open>A C string: its characters, without the terminating NUL.\<close>
type_synonym cstring = "byte list"

text \<open>One \<^verbatim>\<open>writev\<close> call: the bytes of \<^verbatim>\<open>iov[0]\<close>, \<^verbatim>\<open>iov[1]\<close>, ...\<close>
type_synonym writev_call = "byte list list"

definition ascii :: "string \<Rightarrow> cstring" where
  "ascii s = map of_char s"

subsection \<open>Reading memory\<close>

definition read_u16 :: "memory \<Rightarrow> addr \<Rightarrow> 16 word" where
  "read_u16 mem a = ucast (mem a) OR push_bit 8 (ucast (mem (a + 1)))"

definition read_u32 :: "memory \<Rightarrow> addr \<Rightarrow> 32 word" where
  "read_u32 mem a =
     ucast (mem a) OR push_bit 8 (ucast (mem (a + 1)))
       OR push_bit 16 (ucast (mem (a + 2))) OR push_bit 24 (ucast (mem (a + 3)))"

text \<open>The \<open>n\<close> bytes a \<^verbatim>\<open>writev\<close> segment with base \<open>a\<close> and length \<open>n\<close> transfers.\<close>
definition read_bytes :: "memory \<Rightarrow> addr \<Rightarrow> nat \<Rightarrow> byte list" where
  "read_bytes mem a n = map (\<lambda>i. mem (a + of_nat i)) [0..<n]"

subsection \<open>Protocol constants\<close>

text \<open>\<^verbatim>\<open>#define RTM_CMD_ROUTE_ADD 0\<close>, \<^verbatim>\<open>RTM_CMD_ROUTE_DEL 1\<close>, \<^verbatim>\<open>RTM_CMD_ROUTE_ERR 255\<close>,
  \<^verbatim>\<open>BUFSIZE 8192\<close>.\<close>

definition RTM_CMD_ROUTE_ADD :: byte where "RTM_CMD_ROUTE_ADD = 0"
definition RTM_CMD_ROUTE_DEL :: byte where "RTM_CMD_ROUTE_DEL = 1"
definition RTM_CMD_ROUTE_ERR :: "32 word" where "RTM_CMD_ROUTE_ERR = 255"
definition BUFSIZE :: nat where "BUFSIZE = 8192"

subsection \<open>\<^verbatim>\<open>error_reply\<close>\<close>

text \<open>
  \<^verbatim>\<open>int err = RTM_CMD_ROUTE_ERR; size_t len = strlen(msg);\<close> and three segments: the
  first byte of \<^verbatim>\<open>err\<close>, the first byte of \<^verbatim>\<open>len\<close> (on a little-endian machine their
  least significant bytes), and the \<^verbatim>\<open>len\<close> bytes of the message.
\<close>

definition error_reply :: "cstring \<Rightarrow> writev_call" where
  "error_reply msg =
     (let err = RTM_CMD_ROUTE_ERR;
          len = (of_nat (length msg) :: 64 word)
      in [[ucast err], [ucast len], msg])"

subsection \<open>Parameters of the build\<close>

text \<open>
  Four things the program takes from outside this file:
  \<^item> \<^verbatim>\<open>RTA_MAX\<close>, the largest attribute kind of the kernel headers the program is
    compiled against (\<^verbatim>\<open>linux/rtnetlink.h\<close>; it grows with the kernel version);
  \<^item> \<^verbatim>\<open>RTPROT_ROUTEMACHINE\<close>, the origin protocol reserved for the program's own
    routes (\<^verbatim>\<open>routemachine.h\<close>);
  \<^item> \<^verbatim>\<open>strerror\<close> of the C library;
  \<^item> what the compiler makes of the priority segment. In \<^verbatim>\<open>notify\<close> the variable
    \<^verbatim>\<open>prio\<close> is declared inside the branches of an \<^verbatim>\<open>if\<close> and \<^verbatim>\<open>iov[PRIO]\<close> keeps
    its address; when \<^verbatim>\<open>writev\<close> reads the four bytes the variable's lifetime has
    ended. \<open>prio_at_writev x\<close> is the value those four bytes hold then, \<open>x\<close> being the
    value the program stored. A compiler that keeps the store gives \<open>x\<close>; the language
    promises nothing.
\<close>

record platform =
  RTA_MAX :: nat
  RTPROT_ROUTEMACHINE :: int
  strerror :: "int \<Rightarrow> cstring"
  prio_at_writev :: "32 word \<Rightarrow> 32 word"

subsection \<open>Netlink and rtnetlink layout (\<^verbatim>\<open>linux/netlink.h\<close>, \<^verbatim>\<open>linux/rtnetlink.h\<close>)\<close>

text \<open>
  \<^verbatim>\<open>struct nlmsghdr { __u32 nlmsg_len; __u16 nlmsg_type; __u16 nlmsg_flags;
  __u32 nlmsg_seq; __u32 nlmsg_pid; }\<close> (16 bytes),
  \<^verbatim>\<open>struct rtmsg { unsigned char rtm_family, rtm_dst_len, rtm_src_len, rtm_tos,
  rtm_table, rtm_protocol, rtm_scope, rtm_type; unsigned rtm_flags; }\<close> (12 bytes),
  \<^verbatim>\<open>struct rtattr { unsigned short rta_len; unsigned short rta_type; }\<close> (4 bytes).
\<close>

definition sizeof_nlmsghdr :: "64 word" where "sizeof_nlmsghdr = 16"
definition sizeof_rtmsg :: "64 word" where "sizeof_rtmsg = 12"
definition sizeof_rtattr :: "64 word" where "sizeof_rtattr = 4"
definition sizeof_sockaddr_nl :: "32 word" where "sizeof_sockaddr_nl = 12"

definition nlmsg_len :: "memory \<Rightarrow> addr \<Rightarrow> 32 word" where
  "nlmsg_len mem p = read_u32 mem p"
definition nlmsg_type :: "memory \<Rightarrow> addr \<Rightarrow> 16 word" where
  "nlmsg_type mem p = read_u16 mem (p + 4)"

definition rtm_family :: "memory \<Rightarrow> addr \<Rightarrow> byte" where
  "rtm_family mem r = mem r"
definition rtm_dst_len :: "memory \<Rightarrow> addr \<Rightarrow> byte" where
  "rtm_dst_len mem r = mem (r + 1)"
definition rtm_table :: "memory \<Rightarrow> addr \<Rightarrow> byte" where
  "rtm_table mem r = mem (r + 4)"
definition rtm_protocol :: "memory \<Rightarrow> addr \<Rightarrow> byte" where
  "rtm_protocol mem r = mem (r + 5)"

definition rta_len :: "memory \<Rightarrow> addr \<Rightarrow> 16 word" where
  "rta_len mem rta = read_u16 mem rta"
definition rta_type :: "memory \<Rightarrow> addr \<Rightarrow> 16 word" where
  "rta_type mem rta = read_u16 mem (rta + 2)"

definition NLMSG_DONE :: "16 word" where "NLMSG_DONE = 3"
definition RTM_NEWROUTE :: "16 word" where "RTM_NEWROUTE = 24"
definition RTM_DELROUTE :: "16 word" where "RTM_DELROUTE = 25"
definition AF_INET :: byte where "AF_INET = 2"
definition AF_INET6 :: byte where "AF_INET6 = 10"
definition RT_TABLE_MAIN :: byte where "RT_TABLE_MAIN = 254"
definition RTA_DST :: nat where "RTA_DST = 1"
definition RTA_GATEWAY :: nat where "RTA_GATEWAY = 5"
definition RTA_PRIORITY :: nat where "RTA_PRIORITY = 6"
definition INADDR_ANY :: "32 word" where "INADDR_ANY = 0"
definition MSG_TRUNC :: "32 word" where "MSG_TRUNC = 0x20"
definition NULL :: addr where "NULL = 0"

text \<open>
  \<^verbatim>\<open>#define NLMSG_ALIGNTO 4U\<close>,
  \<^verbatim>\<open>#define NLMSG_ALIGN(len) (((len)+NLMSG_ALIGNTO-1) & ~(NLMSG_ALIGNTO-1))\<close>,
  \<^verbatim>\<open>#define NLMSG_HDRLEN ((int) NLMSG_ALIGN(sizeof(struct nlmsghdr)))\<close>,
  \<^verbatim>\<open>#define NLMSG_LENGTH(len) ((len) + NLMSG_HDRLEN)\<close>,
  \<^verbatim>\<open>#define NLMSG_DATA(nlh) ((void*)(((char*)nlh) + NLMSG_LENGTH(0)))\<close>,
  \<^verbatim>\<open>#define RTM_RTA(r) ((struct rtattr*)(((char*)(r)) + NLMSG_ALIGN(sizeof(struct rtmsg))))\<close>.
  \<^verbatim>\<open>NLMSG_ALIGN\<close> is applied to an \<^verbatim>\<open>int\<close> in \<^verbatim>\<open>read_routes\<close> (unsigned 32-bit
  arithmetic) and to \<^verbatim>\<open>sizeof\<close> values in the other macros (64-bit arithmetic, the mask
  zero-extended from 32 bits).
\<close>

definition NLMSG_ALIGNTO :: "32 word" where "NLMSG_ALIGNTO = 4"

definition NLMSG_ALIGN :: "32 word \<Rightarrow> 32 word" where
  "NLMSG_ALIGN len = (len + NLMSG_ALIGNTO - 1) AND NOT (NLMSG_ALIGNTO - 1)"

definition NLMSG_ALIGN_size :: "64 word \<Rightarrow> 64 word" where
  "NLMSG_ALIGN_size len = (len + ucast NLMSG_ALIGNTO - 1) AND ucast (NOT (NLMSG_ALIGNTO - 1))"

definition NLMSG_HDRLEN :: "32 word" where
  "NLMSG_HDRLEN = ucast (NLMSG_ALIGN_size sizeof_nlmsghdr)"

definition NLMSG_LENGTH :: "64 word \<Rightarrow> 64 word" where
  "NLMSG_LENGTH len = len + scast NLMSG_HDRLEN"

definition NLMSG_DATA :: "addr \<Rightarrow> addr" where
  "NLMSG_DATA nlh = nlh + NLMSG_LENGTH 0"

definition RTM_RTA :: "addr \<Rightarrow> addr" where
  "RTM_RTA r = r + NLMSG_ALIGN_size sizeof_rtmsg"

text \<open>
  \<^verbatim>\<open>#define RTA_ALIGNTO 4U\<close>,
  \<^verbatim>\<open>#define RTA_ALIGN(len) (((len)+RTA_ALIGNTO-1) & ~(RTA_ALIGNTO-1))\<close>,
  \<^verbatim>\<open>#define RTA_OK(rta,len) ((len) >= (int)sizeof(struct rtattr) &&
  (rta)->rta_len >= sizeof(struct rtattr) && (rta)->rta_len <= (len))\<close>,
  \<^verbatim>\<open>#define RTA_NEXT(rta,attrlen) ((attrlen) -= RTA_ALIGN((rta)->rta_len),
  (struct rtattr*)(((char*)(rta)) + RTA_ALIGN((rta)->rta_len)))\<close>,
  \<^verbatim>\<open>#define RTA_LENGTH(len) (RTA_ALIGN(sizeof(struct rtattr)) + (len))\<close>,
  \<^verbatim>\<open>#define RTA_DATA(rta) ((void*)(((char*)(rta)) + RTA_LENGTH(0)))\<close>.
  The length \<^verbatim>\<open>len\<close> is an \<^verbatim>\<open>int\<close>: the first and the third comparison of
  \<^verbatim>\<open>RTA_OK\<close> are signed, the second is unsigned.
\<close>

definition RTA_ALIGNTO :: "32 word" where "RTA_ALIGNTO = 4"

definition RTA_ALIGN :: "16 word \<Rightarrow> 32 word" where
  "RTA_ALIGN len = (ucast len + RTA_ALIGNTO - 1) AND NOT (RTA_ALIGNTO - 1)"

definition RTA_OK :: "memory \<Rightarrow> addr \<Rightarrow> 32 word \<Rightarrow> bool" where
  "RTA_OK mem rta len \<longleftrightarrow>
     ucast sizeof_rtattr \<le>s len
     \<and> sizeof_rtattr \<le> ucast (rta_len mem rta)
     \<and> ucast (rta_len mem rta) \<le>s len"

definition RTA_DATA :: "addr \<Rightarrow> addr" where
  "RTA_DATA rta = rta + 4"

subsection \<open>\<^verbatim>\<open>parse_attrs\<close>\<close>

text \<open>
  The table \<^verbatim>\<open>struct rtattr *attrs[RTA_MAX + 1]\<close> is a list of pointers, \<open>NULL\<close> being 0.

  \<^verbatim>\<open>memset(attrs, 0, sizeof(*rta) * (RTA_MAX + 1))\<close> zeroes \<open>n\<close> bytes from the start of
  the table, with \<open>n = 4 * (RTA_MAX + 1)\<close> since \<^verbatim>\<open>*rta\<close> is a \<^verbatim>\<open>struct rtattr\<close>. Slot
  \<open>i\<close> occupies the bytes \<open>8 * i\<close> to \<open>8 * i + 7\<close>, so its first \<open>n - 8 * i\<close> bytes
  (at most 8) are zeroed: its least significant ones.
\<close>

definition memset_ptrs :: "addr list \<Rightarrow> nat \<Rightarrow> addr list" where
  "memset_ptrs attrs n =
     map (\<lambda>i. (attrs ! i) AND NOT (mask (8 * (n - 8 * i)))) [0..<length attrs]"

lemma three_mask: "(3 :: 32 word) = mask 2"
  by (simp add: mask_eq_exp_minus_1)

lemma Suc_Suc_diff_2: "2 \<le> n \<Longrightarrow> Suc (Suc (n - 2)) = n"
  by simp

lemma and_not_3: "(w :: 32 word) AND NOT 3 = push_bit 2 (drop_bit 2 w)"
  unfolding three_mask by (rule bit_word_eqI) (auto simp add: bit_simps not_less Suc_Suc_diff_2)

lemma unat_and_not_3: "unat ((w :: 32 word) AND NOT 3) = 4 * (unat w div 4)"
proof -
  have "unat (push_bit 2 (drop_bit 2 w)) = take_bit 32 (push_bit 2 (drop_bit 2 (unat w)))"
    by (simp add: unsigned_push_bit_eq unat_drop_bit_eq)
  also have "\<dots> = push_bit 2 (drop_bit 2 (unat w))"
  proof (rule take_bit_nat_eq_self)
    have "push_bit 2 (drop_bit 2 (unat w)) \<le> unat w"
      by (simp add: push_bit_eq_mult drop_bit_eq_div)
    also have "\<dots> < 2 ^ 32" using unsigned_less [of w, where ?'a = nat] by simp
    finally show "push_bit 2 (drop_bit 2 (unat w)) < 2 ^ 32" .
  qed
  also have "\<dots> = 4 * (unat w div 4)"
    by (simp add: push_bit_eq_mult drop_bit_eq_div)
  finally show ?thesis by (simp only: and_not_3)
qed

lemma unat_u16_less: "unat (l :: 16 word) < 65536"
  using unsigned_less [of l, where ?'a = nat] by simp

lemma unat_ucast_u16_u32: "unat (ucast (l :: 16 word) :: 32 word) = unat l"
proof -
  have "unat l < 2 ^ 32" using unat_u16_less [of l] by simp
  then show ?thesis by (simp add: unsigned_ucast_eq take_bit_nat_eq_self)
qed

lemma unat_ucast_u16_u64: "unat (ucast (l :: 16 word) :: 64 word) = unat l"
proof -
  have "unat l < 2 ^ 64" using unat_u16_less [of l] by simp
  then show ?thesis by (simp add: unsigned_ucast_eq take_bit_nat_eq_self)
qed

lemma sint_eq_uint_small: "uint (a :: 32 word) < 2 ^ 31 \<Longrightarrow> sint a = uint a"
proof -
  assume a: "uint a < 2 ^ 31"
  have lo: "- (2 ^ 31) \<le> uint a" by (rule order_trans [of _ 0]) simp_all
  have "signed_take_bit 31 (uint a) = uint a"
    using lo a by (rule signed_take_bit_int_eq_self)
  then show ?thesis by (simp add: sint_uint)
qed

lemma sint_diff_small:
  assumes a: "uint (a :: 32 word) \<le> 65540" and b: "uint a - 4 \<le> sint (len :: 32 word)"
  shows "sint (len - a) = sint len - uint a"
proof -
  have sa: "sint a = uint a" using a by (simp add: sint_eq_uint_small)
  have lt: "sint len < 2147483648" using sint_lt [of len] by simp
  have nn: "0 \<le> uint a" by (rule uint_nonnegative)
  have lo: "- 2147483648 \<le> sint len - uint a" using b by linarith
  have hi: "sint len - uint a < 2147483648" using lt nn by linarith
  have "signed_take_bit 31 (sint len - uint a) = sint len - uint a"
    by (rule signed_take_bit_int_eq_self) (use lo hi in simp_all)
  then show ?thesis by (simp add: sint_word_diff sa)
qed

lemma RTA_ALIGN_unat: "unat (RTA_ALIGN l) = 4 * ((unat l + 3) div 4)"
proof -
  have ul: "unat l < 65536" by (rule unat_u16_less)
  have "unat (ucast l + 3 :: 32 word) = unat l + 3"
    using ul by (simp add: unat_word_ariths unat_ucast_u16_u32)
  moreover have "RTA_ALIGN l = (ucast l + 3) AND NOT 3"
    by (simp add: RTA_ALIGN_def RTA_ALIGNTO_def add.commute)
  ultimately show ?thesis
    by (simp only: unat_and_not_3)
qed

lemma sint_ucast_u16: "sint (ucast (l :: 16 word) :: 32 word) = int (unat l)"
proof -
  have uc: "uint (ucast l :: 32 word) = int (unat l)"
    by (simp only: unat_ucast_u16_u32 [symmetric] uint_nat)
  have "int (unat l) < int 65536"
    using unat_u16_less [of l] by (simp only: of_nat_less_iff)
  also have "int 65536 \<le> 2 ^ 31"
    by simp
  finally have "int (unat l) < 2 ^ 31" .
  then have "uint (ucast l :: 32 word) < 2 ^ 31"
    by (simp only: uc)
  then show ?thesis
    by (simp only: sint_eq_uint_small uc)
qed

lemma RTA_OK_iff:
  "RTA_OK mem rta len \<longleftrightarrow>
     4 \<le> sint len \<and> 4 \<le> unat (rta_len mem rta) \<and> int (unat (rta_len mem rta)) \<le> sint len"
proof -
  have a: "(ucast sizeof_rtattr :: 32 word) = 4" by (simp add: sizeof_rtattr_def)
  have b: "sint (4 :: 32 word) = 4" by simp
  show ?thesis
    by (simp only: RTA_OK_def word_sle_eq sint_ucast_u16 a b)
       (simp add: sizeof_rtattr_def word_le_nat_alt unat_ucast_u16_u64)
qed

lemma RTA_OK_next:
  assumes "RTA_OK mem rta len"
  shows "sint (len - RTA_ALIGN (rta_len mem rta))
           = sint len - int (unat (RTA_ALIGN (rta_len mem rta)))"
    and "unat (rta_len mem rta) \<le> unat (RTA_ALIGN (rta_len mem rta))"
    and "unat (RTA_ALIGN (rta_len mem rta)) \<le> unat (rta_len mem rta) + 3"
proof -
  let ?l = "rta_len mem rta"
  have ul: "unat ?l < 65536" by (rule unat_u16_less)
  have le: "int (unat ?l) \<le> sint len"
    using assms by (simp only: RTA_OK_iff)
  define n where "n = unat ?l"
  define a4 where "a4 = 4 * ((n + 3) div 4)"
  have b1: "a4 \<le> n + 3" and b2: "n \<le> a4"
    unfolding a4_def by presburger+
  have n16: "n < 65536" and len: "int n \<le> sint len"
    using ul le by (simp_all only: n_def)
  have a: "unat (RTA_ALIGN ?l) = a4"
    unfolding a4_def n_def by (rule RTA_ALIGN_unat)
  have ua: "uint (RTA_ALIGN ?l) = int a4"
    by (simp only: a [symmetric] uint_nat)
  have d: "sint (len - RTA_ALIGN ?l) = sint len - uint (RTA_ALIGN ?l)"
  proof (rule sint_diff_small)
    show "uint (RTA_ALIGN ?l) \<le> 65540" unfolding ua using b1 n16 by linarith
    show "uint (RTA_ALIGN ?l) - 4 \<le> sint len" unfolding ua using b1 len by linarith
  qed
  show "sint (len - RTA_ALIGN ?l) = sint len - int (unat (RTA_ALIGN ?l))"
    by (simp only: d ua a)
  show "unat ?l \<le> unat (RTA_ALIGN ?l)" using b2 by (simp only: a n_def)
  show "unat (RTA_ALIGN ?l) \<le> unat ?l + 3" using b1 by (simp only: a n_def)
qed

lemma RTA_OK_decreases:
  assumes "RTA_OK mem rta len"
  shows "sint (len - RTA_ALIGN (rta_len mem rta)) < sint len" and "0 < sint len"
proof -
  have a: "4 \<le> sint len" and b: "4 \<le> unat (rta_len mem rta)"
    using assms by (simp_all only: RTA_OK_iff)
  show "sint (len - RTA_ALIGN (rta_len mem rta)) < sint len"
    using RTA_OK_next(1,2) [OF assms] b by linarith
  show "0 < sint len" using a by linarith
qed

text \<open>
  The loop \<^verbatim>\<open>while (RTA_OK(rta, len)) { if (rta->rta_type <= RTA_MAX)
  attrs[rta->rta_type] = rta; rta = RTA_NEXT(rta, len); }\<close>.
\<close>

function attrs_loop :: "nat \<Rightarrow> memory \<Rightarrow> addr list \<Rightarrow> addr \<Rightarrow> 32 word \<Rightarrow> addr list" where
  "attrs_loop rta_max mem attrs rta len =
     (if RTA_OK mem rta len then
        attrs_loop rta_max mem
          (if unat (rta_type mem rta) \<le> rta_max
           then attrs[unat (rta_type mem rta) := rta] else attrs)
          (rta + ucast (RTA_ALIGN (rta_len mem rta)))
          (len - RTA_ALIGN (rta_len mem rta))
      else attrs)"
  by pat_completeness auto
termination
proof (relation "measure (\<lambda>(rta_max, mem, attrs, rta, len). nat (sint len))")
  show "wf (measure (\<lambda>(rta_max, mem, attrs, rta, len). nat (sint len)))" by simp
next
  fix rta_max :: nat and mem :: memory and attrs :: "addr list" and rta :: addr
    and len :: "32 word"
  assume ok: "RTA_OK mem rta len"
  show "((rta_max, mem,
          if unat (rta_type mem rta) \<le> rta_max
          then attrs[unat (rta_type mem rta) := rta] else attrs,
          rta + ucast (RTA_ALIGN (rta_len mem rta)),
          len - RTA_ALIGN (rta_len mem rta)),
         rta_max, mem, attrs, rta, len)
        \<in> measure (\<lambda>(rta_max, mem, attrs, rta, len). nat (sint len))"
    using RTA_OK_decreases [OF ok] by simp
qed

declare attrs_loop.simps [simp del]

definition parse_attrs :: "platform \<Rightarrow> memory \<Rightarrow> addr list \<Rightarrow> addr \<Rightarrow> 32 word \<Rightarrow> addr list" where
  "parse_attrs pf mem attrs rta len =
     attrs_loop (RTA_MAX pf) mem
       (memset_ptrs attrs (unat sizeof_rtattr * (RTA_MAX pf + 1))) rta len"

subsection \<open>The attributes of a block and of a route message\<close>

text \<open>
  The attributes \<^verbatim>\<open>RTA_OK\<close> and \<^verbatim>\<open>RTA_NEXT\<close> find in a block of \<open>len\<close> bytes, in
  order, each given by its address; and what the loop of \<^verbatim>\<open>parse_attrs\<close> does with
  one of them.

  The attributes a route message carries are those of the block that follows its
  \<^verbatim>\<open>struct rtmsg\<close> and ends with the message: it starts at \<^verbatim>\<open>RTM_RTA\<close> and has
  \<^verbatim>\<open>RTM_PAYLOAD\<close> bytes, with
  \<^verbatim>\<open>#define NLMSG_SPACE(len) NLMSG_ALIGN(NLMSG_LENGTH(len))\<close>,
  \<^verbatim>\<open>#define NLMSG_PAYLOAD(nlh,len) ((nlh)->nlmsg_len - NLMSG_SPACE((len)))\<close>,
  \<^verbatim>\<open>#define RTM_PAYLOAD(n) NLMSG_PAYLOAD(n,sizeof(struct rtmsg))\<close> of the kernel
  headers, that is, the declared length less 28.
\<close>

function rta_chain :: "memory \<Rightarrow> addr \<Rightarrow> 32 word \<Rightarrow> addr list" where
  "rta_chain mem rta len =
     (if RTA_OK mem rta len
      then rta # rta_chain mem (rta + ucast (RTA_ALIGN (rta_len mem rta)))
                   (len - RTA_ALIGN (rta_len mem rta))
      else [])"
  by pat_completeness auto
termination
proof (relation "measure (\<lambda>(mem, rta, len). nat (sint len))")
  show "wf (measure (\<lambda>(mem, rta, len). nat (sint len)))" by simp
next
  fix mem :: memory and rta :: addr and len :: "32 word"
  assume ok: "RTA_OK mem rta len"
  show "((mem, rta + ucast (RTA_ALIGN (rta_len mem rta)), len - RTA_ALIGN (rta_len mem rta)),
         mem, rta, len) \<in> measure (\<lambda>(mem, rta, len). nat (sint len))"
    using RTA_OK_decreases [OF ok] by simp
qed

declare rta_chain.simps [simp del]

definition store_attr :: "nat \<Rightarrow> memory \<Rightarrow> addr list \<Rightarrow> addr \<Rightarrow> addr list" where
  "store_attr rta_max mem attrs rta =
     (if unat (rta_type mem rta) \<le> rta_max then attrs[unat (rta_type mem rta) := rta] else attrs)"

definition RTM_PAYLOAD :: "memory \<Rightarrow> addr \<Rightarrow> 32 word" where
  "RTM_PAYLOAD mem nlh =
     ucast ((ucast (nlmsg_len mem nlh) :: 64 word)
              - NLMSG_ALIGN_size (NLMSG_LENGTH sizeof_rtmsg))"

definition msg_attrs :: "memory \<Rightarrow> addr \<Rightarrow> addr list" where
  "msg_attrs mem nlh = rta_chain mem (RTM_RTA (NLMSG_DATA nlh)) (RTM_PAYLOAD mem nlh)"

definition is_kind :: "memory \<Rightarrow> nat \<Rightarrow> addr \<Rightarrow> bool" where
  "is_kind mem k rta \<longleftrightarrow> unat (rta_type mem rta) = k"

subsection \<open>\<^verbatim>\<open>error_quit\<close>\<close>

text \<open>
  \<^verbatim>\<open>snprintf(buf, BUFSIZE, ...)\<close> keeps at most \<open>BUFSIZE - 1\<close> characters. The text is
  the message alone when \<^verbatim>\<open>errno\<close> is 0, and the message, a colon, a space and
  \<^verbatim>\<open>strerror(errno)\<close> otherwise. After the error record the process ends with
  \<^verbatim>\<open>exit(1)\<close>. A call of \<^verbatim>\<open>read_routes\<close> returns, ends the process with a status,
  or leaves defined behaviour (\<open>Undefined\<close>: it reads a message header outside the
  buffer).
\<close>

datatype outcome = Returned | Exited nat | Undefined

definition error_text :: "platform \<Rightarrow> int \<Rightarrow> cstring \<Rightarrow> cstring" where
  "error_text pf errno msg =
     take (BUFSIZE - 1)
       (if errno = 0 then msg else msg @ ascii '': '' @ strerror pf errno)"

definition error_quit :: "platform \<Rightarrow> int \<Rightarrow> cstring \<Rightarrow> writev_call list \<times> outcome" where
  "error_quit pf errno msg = ([error_reply (error_text pf errno msg)], Exited 1)"

subsection \<open>\<^verbatim>\<open>notify\<close>\<close>

text \<open>
  The memory image of a 32-bit value, and \<^verbatim>\<open>htonl\<close> on a little-endian host (a byte
  swap): the image of \<^verbatim>\<open>htonl(x)\<close> is \<open>x\<close> most significant byte first.
\<close>

definition bytes_of_u32 :: "32 word \<Rightarrow> byte list" where
  "bytes_of_u32 w = [ucast w, ucast (drop_bit 8 w), ucast (drop_bit 16 w), ucast (drop_bit 24 w)]"

definition htonl :: "32 word \<Rightarrow> 32 word" where
  "htonl x =
     push_bit 24 (x AND 0xFF) OR push_bit 8 (x AND 0xFF00)
       OR (drop_bit 8 x AND 0xFF00) OR drop_bit 24 x"

text \<open>
  \<^verbatim>\<open>notify\<close> returns the \<^verbatim>\<open>writev\<close> calls it makes: none, or one. The argument
  \<open>attrs0\<close> is what the automatic array \<^verbatim>\<open>attrs\<close> holds when the function is entered
  (it is not initialised). The fields of the record are \<^verbatim>\<open>iov[CMD]\<close>, \<^verbatim>\<open>iov[MASK]\<close>,
  \<^verbatim>\<open>iov[DST]\<close>, \<^verbatim>\<open>iov[GW]\<close>, \<^verbatim>\<open>iov[PRIO]\<close>, at the indices 0 to 4.

  \<^verbatim>\<open>len = nlmsgp->nlmsg_len - NLMSG_LENGTH(sizeof(*nlmsgp))\<close> is computed in
  \<^verbatim>\<open>size_t\<close> and converted to \<^verbatim>\<open>int\<close>. \<^verbatim>\<open>struct in_addr any\<close> has 4 bytes. The
  priority segment is 4 bytes at the address of the dead variable \<^verbatim>\<open>prio\<close>
  (\<open>prio_at_writev\<close>). The destination and gateway segments are read from memory as
  it is, also where they reach past the attribute they start in.
\<close>

definition CMD :: nat where "CMD = 0"
definition MASK :: nat where "MASK = 1"
definition DST :: nat where "DST = 2"
definition GW :: nat where "GW = 3"
definition PRIO :: nat where "PRIO = 4"

definition route_record :: "platform \<Rightarrow> memory \<Rightarrow> addr list \<Rightarrow> addr \<Rightarrow> 32 word \<Rightarrow> byte \<Rightarrow> nat \<Rightarrow> writev_call" where
  "route_record pf mem attrs0 rtmp len cmd host_len =
     (let attrs = parse_attrs pf mem attrs0 (RTM_RTA rtmp) len;
          any = bytes_of_u32 INADDR_ANY;
          dst = (if attrs ! RTA_DST \<noteq> NULL
                 then read_bytes mem (RTA_DATA (attrs ! RTA_DST))
                        ((unat (rtm_dst_len mem rtmp) + 7) div 8)
                 else any);
          gw = (if attrs ! RTA_GATEWAY \<noteq> NULL
                then read_bytes mem (RTA_DATA (attrs ! RTA_GATEWAY)) host_len
                else any);
          prio = (if attrs ! RTA_PRIORITY \<noteq> NULL
                  then bytes_of_u32 (prio_at_writev pf
                         (htonl (read_u32 mem (RTA_DATA (attrs ! RTA_PRIORITY)))))
                  else bytes_of_u32 (prio_at_writev pf (htonl 0)))
      in [[cmd], [rtm_dst_len mem rtmp], dst, gw, prio])"

definition notify_len :: "memory \<Rightarrow> addr \<Rightarrow> 32 word" where
  "notify_len mem nlmsgp =
     ucast ((ucast (nlmsg_len mem nlmsgp) :: 64 word) - NLMSG_LENGTH sizeof_nlmsghdr)"

definition notify :: "platform \<Rightarrow> memory \<Rightarrow> addr list \<Rightarrow> addr \<Rightarrow> writev_call list" where
  "notify pf mem attrs0 nlmsgp =
     (if nlmsg_type mem nlmsgp \<noteq> RTM_NEWROUTE \<and> nlmsg_type mem nlmsgp \<noteq> RTM_DELROUTE
      then [error_reply (ascii ''not a route'')]
      else
        let cmd = (if nlmsg_type mem nlmsgp = RTM_NEWROUTE
                   then RTM_CMD_ROUTE_ADD else RTM_CMD_ROUTE_DEL);
            len = notify_len mem nlmsgp
        in if len <s 0 then [error_reply (ascii ''wrong message length'')]
           else
             let rtmp = NLMSG_DATA nlmsgp
             in if uint (rtm_protocol mem rtmp) = RTPROT_ROUTEMACHINE pf then []
                else if rtm_table mem rtmp \<noteq> RT_TABLE_MAIN then []
                else if rtm_family mem rtmp = AF_INET
                  then [route_record pf mem attrs0 rtmp len cmd 4]
                else if rtm_family mem rtmp = AF_INET6
                  then [route_record pf mem attrs0 rtmp len cmd 16]
                else [error_reply (ascii ''bad message family'')])"

subsection \<open>\<^verbatim>\<open>read_routes\<close>\<close>

text \<open>
  What \<^verbatim>\<open>recvmsg\<close> did: it failed with an error number, or it stored \<open>n\<close> bytes
  (at most \<open>BUFSIZE\<close>) at \<^verbatim>\<open>buf\<close> and set \<^verbatim>\<open>msg_namelen\<close> and \<^verbatim>\<open>msg_flags\<close>.
\<close>

datatype recv_result =
  Recv_Failed int
| Recv_Ok nat "32 word" "32 word"

definition EINTR :: int where "EINTR = 4"
definition EAGAIN :: int where "EAGAIN = 11"
definition EWOULDBLOCK :: int where "EWOULDBLOCK = 11"
definition ENOBUFS :: int where "ENOBUFS = 105"

text \<open>
  The framing loop. \<^verbatim>\<open>ret\<close> and \<^verbatim>\<open>len\<close> are \<^verbatim>\<open>int\<close>; a comparison with
  \<^verbatim>\<open>sizeof(*p)\<close> converts them to \<^verbatim>\<open>size_t\<close> (sign extension, then unsigned
  comparison); \<^verbatim>\<open>len > ret\<close> is signed. \<open>uninit p\<close> is what the array \<^verbatim>\<open>attrs\<close> of
  \<^verbatim>\<open>notify\<close> holds when it is entered for the frame at \<open>p\<close>. \<open>out\<close> collects the
  \<^verbatim>\<open>writev\<close> calls made so far.

  The loop reads the header at \<^verbatim>\<open>p\<close> whenever \<^verbatim>\<open>ret >= sizeof(*p)\<close> holds. The
  tests do not keep \<^verbatim>\<open>p\<close> inside \<^verbatim>\<open>char buf[BUFSIZE]\<close> (a declared length of
  \<open>2^31\<close> or more is negative as an \<^verbatim>\<open>int\<close> and passes them); a header that does not
  lie inside the buffer is a read outside the array, and the result is \<open>Undefined\<close>.
  The loop need not end either (a frame that declares the length \<open>0xFFFFFFFF\<close> is
  accepted and advances by 0 bytes), so the result is an option: \<open>None\<close> when it runs
  forever.
\<close>

definition hdr_in_buf :: "addr \<Rightarrow> addr \<Rightarrow> bool" where
  "hdr_in_buf buf p \<longleftrightarrow> unat (p - buf) + unat sizeof_nlmsghdr \<le> BUFSIZE"

partial_function (option) read_loop ::
  "platform \<Rightarrow> (addr \<Rightarrow> addr list) \<Rightarrow> memory \<Rightarrow> addr \<Rightarrow> 32 word \<Rightarrow> int \<Rightarrow> writev_call list
     \<Rightarrow> addr \<Rightarrow> 32 word \<Rightarrow> (writev_call list \<times> outcome) option" where
  "read_loop pf uninit mem buf msg_flags errno out p ret =
     (if sizeof_nlmsghdr \<le> scast ret then
        (if \<not> hdr_in_buf buf p then Some (out, Undefined)
         else if (scast (nlmsg_len mem p) :: 64 word) < sizeof_nlmsghdr \<or> ret <s nlmsg_len mem p
         then
           (if msg_flags AND MSG_TRUNC \<noteq> 0
            then Some (out @ fst (error_quit pf errno (ascii ''truncated message'')),
                       snd (error_quit pf errno (ascii ''truncated message'')))
            else Some (out @ fst (error_quit pf errno (ascii ''malformed message'')),
                       snd (error_quit pf errno (ascii ''malformed message''))))
         else
           read_loop pf uninit mem buf msg_flags errno
             (if nlmsg_type mem p \<noteq> NLMSG_DONE then out @ notify pf mem (uninit p) p else out)
             (p + ucast (NLMSG_ALIGN (nlmsg_len mem p)))
             (ret - NLMSG_ALIGN (nlmsg_len mem p)))
      else if msg_flags AND MSG_TRUNC \<noteq> 0 then Some (out, Returned)
      else if ret \<noteq> 0
        then Some (out @ fst (error_quit pf errno (ascii ''unexpected remaining bytes'')),
                   snd (error_quit pf errno (ascii ''unexpected remaining bytes'')))
      else Some (out, Returned))"

declare read_loop.simps [code]

text \<open>
  \<open>errno0\<close> is the value of \<^verbatim>\<open>errno\<close> when \<^verbatim>\<open>read_routes\<close> is entered: a successful
  \<^verbatim>\<open>recvmsg\<close> leaves it as it is, a failing one sets it. \<open>mem\<close> is the memory after
  the call and \<open>buf\<close> the address of the buffer.
\<close>

definition read_routes ::
  "platform \<Rightarrow> (addr \<Rightarrow> addr list) \<Rightarrow> int \<Rightarrow> recv_result \<Rightarrow> memory \<Rightarrow> addr
     \<Rightarrow> (writev_call list \<times> outcome) option" where
  "read_routes pf uninit errno0 r mem buf =
     (case r of
        Recv_Failed e \<Rightarrow>
          if e = EINTR \<or> e = EAGAIN \<or> e = ENOBUFS then Some ([], Returned)
          else Some (error_quit pf e (ascii ''recvmsg''))
      | Recv_Ok n msg_namelen msg_flags \<Rightarrow>
          if n = 0 then Some (error_quit pf errno0 (ascii ''recvmsg: EOF''))
          else if msg_namelen \<noteq> sizeof_sockaddr_nl
            then Some (error_quit pf errno0 (ascii ''bad message namelen''))
          else read_loop pf uninit mem buf msg_flags errno0 [] buf (of_nat n))"

subsection \<open>Frames of a batch\<close>

text \<open>
  A position of the framing loop is the pointer \<^verbatim>\<open>p\<close> with the count \<^verbatim>\<open>ret\<close> of
  the bytes that remain; the next position lies \<^verbatim>\<open>NLMSG_ALIGN(len)\<close> bytes further.
  In the terms of the batch:
  \<^item> a whole frame: its header lies in the buffer and its declared length is at least
    the 16 bytes of a header and at most the bytes that remain;
  \<^item> a cut frame: its header lies in the buffer, at least 16 bytes remain, and its
    declared length (below \<open>2^31\<close>) is more than the bytes that remain;
  \<^item> a short tail: fewer than 16 bytes remain, too few for a header.
  \<open>dispatch\<close> is what the loop does with a frame it accepts.
\<close>

definition next_frame :: "memory \<Rightarrow> addr \<times> 32 word \<Rightarrow> addr \<times> 32 word" where
  "next_frame mem pr =
     (fst pr + ucast (NLMSG_ALIGN (nlmsg_len mem (fst pr))),
      snd pr - NLMSG_ALIGN (nlmsg_len mem (fst pr)))"

fun frame_at :: "memory \<Rightarrow> addr \<times> 32 word \<Rightarrow> nat \<Rightarrow> addr \<times> 32 word" where
  "frame_at mem pr 0 = pr"
| "frame_at mem pr (Suc k) = frame_at mem (next_frame mem pr) k"

definition frame_whole :: "memory \<Rightarrow> addr \<Rightarrow> addr \<times> 32 word \<Rightarrow> bool" where
  "frame_whole mem buf pr \<longleftrightarrow>
     hdr_in_buf buf (fst pr)
     \<and> 16 \<le> uint (nlmsg_len mem (fst pr))
     \<and> uint (nlmsg_len mem (fst pr)) \<le> sint (snd pr)"

definition frame_cut :: "memory \<Rightarrow> addr \<Rightarrow> addr \<times> 32 word \<Rightarrow> bool" where
  "frame_cut mem buf pr \<longleftrightarrow>
     hdr_in_buf buf (fst pr)
     \<and> 16 \<le> sint (snd pr)
     \<and> sint (snd pr) < uint (nlmsg_len mem (fst pr))
     \<and> uint (nlmsg_len mem (fst pr)) < 2 ^ 31"

definition short_tail :: "addr \<times> 32 word \<Rightarrow> bool" where
  "short_tail pr \<longleftrightarrow> 0 \<le> sint (snd pr) \<and> sint (snd pr) < 16"

definition dispatch :: "platform \<Rightarrow> (addr \<Rightarrow> addr list) \<Rightarrow> memory \<Rightarrow> addr \<Rightarrow> writev_call list" where
  "dispatch pf uninit mem p =
     (if nlmsg_type mem p \<noteq> NLMSG_DONE then notify pf mem (uninit p) p else [])"

subsection \<open>The event loop of \<^verbatim>\<open>main\<close>\<close>

text \<open>
  The loop is driven by what the system calls return. One wake-up of \<^verbatim>\<open>select\<close>
  comes with: the result of \<^verbatim>\<open>select\<close> (failure, or which of standard input
  readable, socket readable, socket writable it reports); the result of
  \<^verbatim>\<open>read(STDIN_FILENO, buf, 1)\<close>, should it be called; the result of the \<^verbatim>\<open>send\<close>
  of \<^verbatim>\<open>request_dump\<close>; and what the two possible calls of \<^verbatim>\<open>read_routes\<close>
  receive.

  The program's own state across iterations is the set \<^verbatim>\<open>wset\<close>, which holds the
  socket or nothing (the flag \<open>armed\<close>), and \<^verbatim>\<open>errno\<close>. \<^verbatim>\<open>select\<close> is given
  \<^verbatim>\<open>&wset\<close> and overwrites it with the descriptors that are ready: afterwards it
  holds the socket only if it held it before and the socket is writable.

  The trace lists every call of \<^verbatim>\<open>request_dump\<close> (\<open>Request_Dump\<close>: the program
  calls \<^verbatim>\<open>send\<close> and ignores what it returns, so the entry says that the request was
  issued, not that the kernel took it), every call of \<^verbatim>\<open>read_routes\<close>, every
  \<^verbatim>\<open>writev\<close> and the \<^verbatim>\<open>close\<close> of the socket, in order.
\<close>

datatype select_result = Select_Failed int | Select_Ok bool bool bool
datatype read_result = Read_Failed int | Read_Ok nat
datatype send_result = Send_Failed int | Send_Ok

datatype action = Request_Dump | Read_Routes | Writev writev_call | Close_Sock

datatype status = Waiting | Diverged | Crashed | Exit nat

datatype 'a step = Go 'a | Stop status

record channel_input =
  ci_recv :: recv_result
  ci_mem :: memory
  ci_buf :: addr
  ci_uninit :: "addr \<Rightarrow> addr list"

record wakeup =
  w_select :: select_result
  w_stdin :: read_result
  w_send :: send_result
  w_first :: channel_input
  w_second :: channel_input

definition channel_read :: "platform \<Rightarrow> int \<Rightarrow> channel_input \<Rightarrow> action list \<times> int step" where
  "channel_read pf errno c =
     (case read_routes pf (ci_uninit c) errno (ci_recv c) (ci_mem c) (ci_buf c) of
        None \<Rightarrow> ([Read_Routes], Stop Diverged)
      | Some (out, Returned) \<Rightarrow>
          (Read_Routes # map Writev out,
           Go (case ci_recv c of Recv_Failed e \<Rightarrow> e | Recv_Ok n l f \<Rightarrow> errno))
      | Some (out, Exited n) \<Rightarrow> (Read_Routes # map Writev out, Stop (Exit n))
      | Some (out, Undefined) \<Rightarrow> (Read_Routes # map Writev out, Stop Crashed))"

text \<open>
  \<^verbatim>\<open>n = read(STDIN_FILENO, buf, 1); if (n == -1 && errno != EWOULDBLOCK)
  error_quit("read"); else if (n == 0) { close(sock); exit(0); }\<close>
\<close>

definition stdin_step :: "platform \<Rightarrow> int \<Rightarrow> read_result \<Rightarrow> action list \<times> int step" where
  "stdin_step pf errno r =
     (case r of
        Read_Failed e \<Rightarrow>
          if e \<noteq> EWOULDBLOCK
          then (map Writev (fst (error_quit pf e (ascii ''read''))), Stop (Exit 1))
          else ([], Go e)
      | Read_Ok n \<Rightarrow> if n = 0 then ([Close_Sock], Stop (Exit 0)) else ([], Go errno))"

text \<open>\<^verbatim>\<open>request_dump(sock); read_routes(sock);\<close> The result of \<^verbatim>\<open>send\<close> is ignored.\<close>

definition dump_step :: "platform \<Rightarrow> int \<Rightarrow> wakeup \<Rightarrow> action list \<times> int step" where
  "dump_step pf errno w =
     (let errno' = (case w_send w of Send_Failed e \<Rightarrow> e | Send_Ok \<Rightarrow> errno)
      in case channel_read pf errno' (w_first w) of (t, r) \<Rightarrow> (Request_Dump # t, r))"

text \<open>
  Statements in sequence: the second runs from the \<^verbatim>\<open>errno\<close> the first leaves, unless
  the first ended the process; the traces are concatenated.
\<close>

definition then_step :: "action list \<times> 'a step \<Rightarrow> ('a \<Rightarrow> action list \<times> 'b step) \<Rightarrow> action list \<times> 'b step" where
  "then_step r f =
     (case r of
        (t, Stop s) \<Rightarrow> (t, Stop s)
      | (t, Go x) \<Rightarrow> (case f x of (t', r') \<Rightarrow> (t @ t', r')))"

text \<open>
  One iteration of \<^verbatim>\<open>for (;;)\<close>, from the state \<open>(armed, errno)\<close>: \<^verbatim>\<open>select\<close>, the
  control input, the writable socket (\<^verbatim>\<open>FD_CLR(sock, &wset); request_dump(sock);
  read_routes(sock);\<close>), the readable socket.
\<close>

definition main_iter :: "platform \<Rightarrow> bool \<times> int \<Rightarrow> wakeup \<Rightarrow> action list \<times> (bool \<times> int) step" where
  "main_iter pf st w =
     (case w_select w of
        Select_Failed e \<Rightarrow>
          (map Writev (fst (error_quit pf e (ascii ''select''))), Stop (Exit 1))
      | Select_Ok stdin_readable sock_readable sock_writable \<Rightarrow>
          (let wset = (fst st \<and> sock_writable)
           in then_step (if stdin_readable then stdin_step pf (snd st) (w_stdin w)
                         else ([], Go (snd st)))
                (\<lambda>e1. then_step (if wset then dump_step pf e1 w else ([], Go e1))
                  (\<lambda>e2. then_step (if sock_readable then channel_read pf e2 (w_second w)
                                    else ([], Go e2))
                    (\<lambda>e3. ([], Go (if wset then False else wset, e3)))))))"

text \<open>
  The loop over the wake-ups the system delivers. When they are used up the process is
  blocked in \<^verbatim>\<open>select\<close> (\<open>Waiting\<close>). \<^verbatim>\<open>main\<close> enters the loop with the socket in
  \<^verbatim>\<open>wset\<close> (\<^verbatim>\<open>FD_SET(sock, &wset)\<close> stands before the loop and nowhere else).
\<close>

fun main_loop :: "platform \<Rightarrow> bool \<times> int \<Rightarrow> wakeup list \<Rightarrow> action list \<times> status" where
  "main_loop pf st [] = ([], Waiting)"
| "main_loop pf st (w # ws) =
     (case main_iter pf st w of
        (t, Stop s) \<Rightarrow> (t, s)
      | (t, Go st') \<Rightarrow> (case main_loop pf st' ws of (t', s) \<Rightarrow> (t @ t', s)))"

definition event_loop :: "platform \<Rightarrow> int \<Rightarrow> wakeup list \<Rightarrow> action list \<times> status" where
  "event_loop pf errno ws = main_loop pf (True, errno) ws"

text \<open>
  The first wake-up sends the dump request: \<^verbatim>\<open>select\<close> succeeds and reports the socket
  writable, and the handling of the control input, if it is readable, does not end the
  process.
\<close>

definition dump_fires :: "platform \<Rightarrow> int \<Rightarrow> wakeup \<Rightarrow> bool" where
  "dump_fires pf errno w =
     (case w_select w of
        Select_Failed e \<Rightarrow> False
      | Select_Ok stdin_readable sock_readable sock_writable \<Rightarrow>
          sock_writable
          \<and> (if stdin_readable
               then (case snd (stdin_step pf errno (w_stdin w)) of Go e \<Rightarrow> True | Stop s \<Rightarrow> False)
               else True))"

subsection \<open>Concrete inputs\<close>

text \<open>
  A memory that holds the given bytes from address 0 on and zeroes elsewhere, and a
  build against kernel headers with \<^verbatim>\<open>RTA_MAX = 30\<close>; for the examples its
  \<^verbatim>\<open>RTPROT_ROUTEMACHINE\<close> is 250, its \<^verbatim>\<open>strerror\<close> returns "error" for every
  error number, and its compiler keeps the store to \<^verbatim>\<open>prio\<close>.
\<close>

definition mem_of :: "byte list \<Rightarrow> memory" where
  "mem_of bs a = (if unat a < length bs then bs ! unat a else 0)"

definition build30 :: platform where
  "build30 = \<lparr>RTA_MAX = 30, RTPROT_ROUTEMACHINE = 250, strerror = (\<lambda>e. ascii ''error''),
               prio_at_writev = (\<lambda>x. x)\<rparr>"

text \<open>
  Messages as the kernel lays them out (header, \<^verbatim>\<open>struct rtmsg\<close>, attributes):
  \<^item> \<open>link_msg\<close>: an \<^verbatim>\<open>RTM_NEWLINK\<close> notification (type 16);
  \<^item> \<open>route4_msg\<close>: \<^verbatim>\<open>RTM_NEWROUTE\<close>, IPv4, 10.0.0.0/24, main table, with the
    attributes \<^verbatim>\<open>RTA_DST\<close> and \<^verbatim>\<open>RTA_OIF\<close>;
  \<^item> \<open>short_own_msg\<close>: \<^verbatim>\<open>RTM_NEWROUTE\<close> of 28 bytes (header and \<^verbatim>\<open>struct rtmsg\<close>, no
    attribute), origin protocol 250;
  \<^item> \<open>local_msg\<close>: \<^verbatim>\<open>RTM_NEWROUTE\<close>, IPv4, 127.0.0.1/32 in the local table (255);
  \<^item> \<open>ipmr_msg\<close>: \<^verbatim>\<open>RTM_NEWROUTE\<close> of family 128 (multicast routing), main table;
  \<^item> \<open>default4_msg\<close>: \<^verbatim>\<open>RTM_NEWROUTE\<close>, IPv4 default route via 192.168.1.1, with
    \<^verbatim>\<open>RTA_GATEWAY\<close> and \<^verbatim>\<open>RTA_OIF\<close> and no \<^verbatim>\<open>RTA_DST\<close>;
  \<^item> \<open>route6_msg\<close>: \<^verbatim>\<open>RTM_NEWROUTE\<close>, IPv6, fe80::/64 on a link, main table, with
    \<^verbatim>\<open>RTA_DST\<close> and \<^verbatim>\<open>RTA_OIF\<close> and no \<^verbatim>\<open>RTA_GATEWAY\<close>;
  \<^item> \<open>dst_last_msg\<close>: \<open>route4_msg\<close> with its two attributes in the other order,
    \<^verbatim>\<open>RTA_DST\<close> last.
\<close>

definition link_msg :: "byte list" where
  "link_msg = [32,0,0,0, 16,0, 0,0, 0,0,0,0, 0,0,0,0,
               0,0,1,0, 2,0,0,0, 0x43,0x10,1,0, 0,0,0,0]"

definition route4_msg :: "byte list" where
  "route4_msg = [44,0,0,0, 24,0, 0,0, 0,0,0,0, 0,0,0,0,
                 2,24,0,0, 254,2,0,1, 0,0,0,0,
                 8,0,1,0, 10,0,0,0,
                 8,0,4,0, 2,0,0,0]"

definition short_own_msg :: "byte list" where
  "short_own_msg = [28,0,0,0, 24,0, 0,0, 0,0,0,0, 0,0,0,0,
                    2,24,0,0, 254,250,0,1, 0,0,0,0]"

definition local_msg :: "byte list" where
  "local_msg = [44,0,0,0, 24,0, 0,0, 0,0,0,0, 0,0,0,0,
                2,32,0,0, 255,2,254,2, 0,0,0,0,
                8,0,1,0, 127,0,0,1,
                8,0,4,0, 1,0,0,0]"

definition ipmr_msg :: "byte list" where
  "ipmr_msg = [36,0,0,0, 24,0, 0,0, 0,0,0,0, 0,0,0,0,
               128,32,32,0, 254,17,0,5, 0,0,0,0,
               8,0,15,0, 254,0,0,0]"

definition default4_msg :: "byte list" where
  "default4_msg = [44,0,0,0, 24,0, 0,0, 0,0,0,0, 0,0,0,0,
                   2,0,0,0, 254,3,0,1, 0,0,0,0,
                   8,0,5,0, 192,168,1,1,
                   8,0,4,0, 2,0,0,0]"

definition route6_msg :: "byte list" where
  "route6_msg = [56,0,0,0, 24,0, 0,0, 0,0,0,0, 0,0,0,0,
                 10,64,0,0, 254,2,0,1, 0,0,0,0,
                 20,0,1,0, 0xFE,0x80,0,0, 0,0,0,0, 0,0,0,0, 0,0,0,0,
                 8,0,4,0, 2,0,0,0]"


definition dst_last_msg :: "byte list" where
  "dst_last_msg = [44,0,0,0, 24,0, 0,0, 0,0,0,0, 0,0,0,0,
                   2,24,0,0, 254,2,0,1, 0,0,0,0,
                   8,0,4,0, 2,0,0,0,
                   8,0,1,0, 10,0,0,0]"

text \<open>
  Batches: a frame header that declares the length \<open>0xFFFFFFFF\<close>; the first 16 bytes
  of a frame that declares 8200 bytes; \<open>route4_msg\<close> followed by the header of a frame
  that declares 100 bytes; \<open>route4_msg\<close> followed by the first 8 bytes of such a
  header; \<open>ipmr_msg\<close> followed by \<open>route4_msg\<close>; a header that declares 8 bytes.
  What a call of \<^verbatim>\<open>read_routes\<close> receives: nothing (\<^verbatim>\<open>EAGAIN\<close>); one datagram
  holding \<open>route4_msg\<close>; one datagram holding the header that declares 8 bytes.
  Wake-ups of the event loop: the socket writable; the socket readable, with a route to
  receive; the control input at end of file while the socket is writable; the socket
  readable with nothing to receive; the socket readable with the bad header to receive.
\<close>

definition stall_hdr :: "byte list" where
  "stall_hdr = [0xFF,0xFF,0xFF,0xFF, 16,0, 0,0, 0,0,0,0, 0,0,0,0]"

definition big_frame_hdr :: "byte list" where
  "big_frame_hdr = [0x08,0x20,0,0, 24,0, 0,0, 0,0,0,0, 0,0,0,0]"

definition cut_batch :: "byte list" where
  "cut_batch = route4_msg @ [100,0,0,0, 24,0, 0,0, 0,0,0,0, 0,0,0,0]"

definition tail_batch :: "byte list" where
  "tail_batch = route4_msg @ [100,0,0,0, 24,0, 0,0]"

definition two_batch :: "byte list" where
  "two_batch = ipmr_msg @ route4_msg"

definition bad_frame_hdr :: "byte list" where
  "bad_frame_hdr = [8,0,0,0, 24,0, 0,0, 0,0,0,0, 0,0,0,0]"

definition no_input :: channel_input where
  "no_input = \<lparr>ci_recv = Recv_Failed EAGAIN, ci_mem = mem_of [], ci_buf = 0,
                ci_uninit = (\<lambda>p. replicate 31 0)\<rparr>"

definition one_route :: channel_input where
  "one_route = \<lparr>ci_recv = Recv_Ok 44 12 0, ci_mem = mem_of route4_msg, ci_buf = 0,
                 ci_uninit = (\<lambda>p. replicate 31 0)\<rparr>"

definition bad_frame :: channel_input where
  "bad_frame = \<lparr>ci_recv = Recv_Ok 16 12 0, ci_mem = mem_of bad_frame_hdr, ci_buf = 0,
                 ci_uninit = (\<lambda>p. replicate 31 0)\<rparr>"

definition wake_writable :: wakeup where
  "wake_writable = \<lparr>w_select = Select_Ok False False True, w_stdin = Read_Ok 1,
                     w_send = Send_Ok, w_first = no_input, w_second = no_input\<rparr>"

definition wake_readable :: wakeup where
  "wake_readable = \<lparr>w_select = Select_Ok False True True, w_stdin = Read_Ok 1,
                     w_send = Send_Ok, w_first = no_input, w_second = one_route\<rparr>"

definition wake_eof :: wakeup where
  "wake_eof = \<lparr>w_select = Select_Ok True False True, w_stdin = Read_Ok 0,
                w_send = Send_Ok, w_first = no_input, w_second = no_input\<rparr>"

definition wake_again :: wakeup where
  "wake_again = \<lparr>w_select = Select_Ok False True False, w_stdin = Read_Ok 1,
                  w_send = Send_Ok, w_first = no_input, w_second = no_input\<rparr>"

definition wake_bad :: wakeup where
  "wake_bad = \<lparr>w_select = Select_Ok False True False, w_stdin = Read_Ok 1,
                w_send = Send_Ok, w_first = no_input, w_second = bad_frame\<rparr>"

section \<open>Properties\<close>

lemma ucast_size_t_byte: "(ucast (of_nat n :: 64 word) :: byte) = of_nat n"
  by (rule bit_word_eqI) (auto simp add: bit_simps)

lemma take_bit_32_sub: "take_bit 32 (take_bit 32 x - 32) = take_bit 32 (x - 32)" for x :: int
  using take_bit_diff [of 32 x 32] by simp

lemma ucast_sub_32: "(ucast ((ucast (x :: 32 word) :: 64 word) - 32) :: 32 word) = x - 32"
  by transfer (simp add: take_bit_32_sub min_def)

lemma NLMSG_LENGTH_hdr: "NLMSG_LENGTH sizeof_nlmsghdr = 32"
  by (simp add: NLMSG_LENGTH_def NLMSG_HDRLEN_def NLMSG_ALIGN_size_def NLMSG_ALIGNTO_def sizeof_nlmsghdr_def)

lemma notify_len_eq: "notify_len mem p = nlmsg_len mem p - 32"
  by (simp only: notify_len_def NLMSG_LENGTH_hdr ucast_sub_32)

lemma NLMSG_DATA_eq: "NLMSG_DATA p = p + 16"
  by (simp add: NLMSG_DATA_def NLMSG_LENGTH_def NLMSG_HDRLEN_def NLMSG_ALIGN_size_def NLMSG_ALIGNTO_def sizeof_nlmsghdr_def)

lemma RTM_RTA_eq: "RTM_RTA r = r + 12"
  by (simp add: RTM_RTA_def NLMSG_ALIGN_size_def NLMSG_ALIGNTO_def sizeof_rtmsg_def)

lemma notify_len_nonneg:
  assumes "32 \<le> unat (nlmsg_len mem p)" and "unat (nlmsg_len mem p) < 2 ^ 31"
  shows "\<not> notify_len mem p <s 0"
proof -
  let ?x = "nlmsg_len mem p"
  have le: "(32 :: 32 word) \<le> ?x" using assms(1) by (simp add: word_le_nat_alt)
  have "unat (?x - 32) = unat ?x - 32" using le by (simp add: unat_sub)
  then have "unat (?x - 32) < 2 ^ 31" using assms(2) by simp
  then have "int (unat (?x - 32)) < 2 ^ 31" by (simp only: of_nat_less_iff [symmetric, where ?'a = int]) simp
  then have "uint (?x - 32) < 2 ^ 31" by simp
  then have "sint (?x - 32) = uint (?x - 32)" by (rule sint_eq_uint_small)
  then have "0 \<le> sint (?x - 32)" by simp
  then show ?thesis by (simp add: notify_len_eq word_sless_alt)
qed


lemma length_read_bytes: "length (read_bytes mem a n) = n"
  by (simp add: read_bytes_def)

lemma length_bytes_of_u32: "length (bytes_of_u32 w) = 4"
  by (simp add: bytes_of_u32_def)


lemma take_bit_32_sub28: "take_bit 32 (take_bit 32 x - 28) = take_bit 32 (x - 28)" for x :: int
  using take_bit_diff [of 32 x 28] by simp

lemma ucast_sub_28: "(ucast ((ucast (x :: 32 word) :: 64 word) - 28) :: 32 word) = x - 28"
  by transfer (simp add: take_bit_32_sub28 min_def)

lemma RTM_PAYLOAD_eq: "RTM_PAYLOAD mem p = nlmsg_len mem p - 28"
proof -
  have "NLMSG_ALIGN_size (NLMSG_LENGTH sizeof_rtmsg) = 28"
    by (simp add: NLMSG_LENGTH_def NLMSG_HDRLEN_def NLMSG_ALIGN_size_def NLMSG_ALIGNTO_def
          sizeof_nlmsghdr_def sizeof_rtmsg_def)
  then show ?thesis by (simp only: RTM_PAYLOAD_def ucast_sub_28)
qed

lemma sint_sub_le:
  assumes "uint y \<le> uint (x :: 32 word)" and "uint x < 2 ^ 31"
  shows "sint (x - y) = uint x - uint y"
proof -
  have d: "uint (x - y) = uint x - uint y"
    using assms(1) by (simp only: uint_sub_lem [symmetric])
  have "0 \<le> uint y" by (rule uint_nonnegative)
  then have "uint (x - y) < 2 ^ 31" using assms(2) d by linarith
  then have "sint (x - y) = uint (x - y)" by (rule sint_eq_uint_small)
  then show ?thesis by (simp only: d)
qed

lemma uint_scast_nonneg:
  assumes "0 \<le> sint (x :: 32 word)"
  shows "uint (scast x :: 64 word) = sint x"
proof -
  have "sint x < 2 ^ 31" using sint_lt [of x] by simp
  also have "(2 :: int) ^ 31 \<le> 2 ^ 64" by simp
  finally have lt: "sint x < 2 ^ 64" .
  have "uint (scast x :: 64 word) = take_bit LENGTH(64) (sint x)"
    by (simp only: scast_eq uint_word_of_int_eq)
  also have "\<dots> = take_bit 64 (sint x)"
    by simp
  also have "\<dots> = sint x"
    using assms lt by (rule take_bit_int_eq_self)
  finally show ?thesis .
qed

lemma size_t_ge_16: "16 \<le> sint (x :: 32 word) \<Longrightarrow> sizeof_nlmsghdr \<le> (scast x :: 64 word)"
proof -
  assume a: "16 \<le> sint x"
  then have "0 \<le> sint x" by linarith
  then have "uint (scast x :: 64 word) = sint x" by (rule uint_scast_nonneg)
  then show ?thesis using a by (simp add: word_le_def sizeof_nlmsghdr_def)
qed

lemma size_t_less_16:
  "0 \<le> sint (x :: 32 word) \<Longrightarrow> sint x < 16 \<Longrightarrow> \<not> sizeof_nlmsghdr \<le> (scast x :: 64 word)"
proof -
  assume a: "0 \<le> sint x" and b: "sint x < 16"
  have "uint (scast x :: 64 word) = sint x" using a by (rule uint_scast_nonneg)
  then show ?thesis using b by (simp add: word_le_def sizeof_nlmsghdr_def)
qed

lemma sint_eq_uint_le:
  assumes "uint (l :: 32 word) \<le> sint (r :: 32 word)"
  shows "sint l = uint l"
proof -
  have "sint r < 2 ^ 31" using sint_lt [of r] by simp
  then have "uint l < 2 ^ 31" using assms by linarith
  then show ?thesis by (rule sint_eq_uint_small)
qed

lemma whole_tests:
  assumes "frame_whole mem buf (p, ret)"
  shows "sizeof_nlmsghdr \<le> scast ret" and "hdr_in_buf buf p"
    and "\<not> (scast (nlmsg_len mem p) :: 64 word) < sizeof_nlmsghdr"
    and "\<not> ret <s nlmsg_len mem p"
proof -
  let ?l = "nlmsg_len mem p"
  have a: "16 \<le> uint ?l" and b: "uint ?l \<le> sint ret" and c: "hdr_in_buf buf p"
    using assms by (simp_all add: frame_whole_def)
  have s: "sint ?l = uint ?l" using b by (rule sint_eq_uint_le)
  show "sizeof_nlmsghdr \<le> scast ret" using a b by (intro size_t_ge_16) linarith
  show "hdr_in_buf buf p" by (rule c)
  have "sizeof_nlmsghdr \<le> (scast ?l :: 64 word)"
    using a s by (intro size_t_ge_16) linarith
  then show "\<not> (scast ?l :: 64 word) < sizeof_nlmsghdr" by simp
  show "\<not> ret <s ?l" using b s by (simp add: word_sless_alt)
qed

lemma cut_tests:
  assumes "frame_cut mem buf (p, ret)"
  shows "sizeof_nlmsghdr \<le> scast ret" and "hdr_in_buf buf p" and "ret <s nlmsg_len mem p"
proof -
  let ?l = "nlmsg_len mem p"
  have a: "16 \<le> sint ret" and b: "sint ret < uint ?l" and c: "hdr_in_buf buf p"
    and d: "uint ?l < 2 ^ 31"
    using assms by (simp_all add: frame_cut_def)
  have s: "sint ?l = uint ?l" using d by (rule sint_eq_uint_small)
  show "sizeof_nlmsghdr \<le> scast ret" using a by (rule size_t_ge_16)
  show "hdr_in_buf buf p" by (rule c)
  show "ret <s ?l" using b s by (simp add: word_sless_alt)
qed

subsection \<open>Error records\<close>

text \<open>
  C10. For an error message of \<open>N\<close> bytes, \<^verbatim>\<open>error_reply\<close> writes exactly \<open>2 + N\<close> bytes:
  the command byte 255, one length byte equal to \<open>N mod 256\<close>, then all \<open>N\<close> message
  bytes. For a message of 256 bytes or more the length byte therefore holds only the low
  eight bits of the length, while the whole message is still written.
\<close>

theorem error_reply_wire:
  "concat (error_reply msg) = 255 # of_nat (length msg mod 256) # msg
   \<and> length (concat (error_reply msg)) = 2 + length msg
   \<and> unat (concat (error_reply msg) ! 1) = length msg mod 256"
proof -
  have b: "(of_nat (length msg mod 256) :: byte) = of_nat (length msg)"
    by (simp add: word_eq_iff_unsigned [where ?'a = nat] unat_of_nat)
  show ?thesis
    by (simp add: error_reply_def RTM_CMD_ROUTE_ERR_def b ucast_size_t_byte unat_of_nat)
qed

subsection \<open>The attributes \<^verbatim>\<open>parse_attrs\<close> finds\<close>

text \<open>
  The loop of \<^verbatim>\<open>parse_attrs\<close> stores the attributes of the block in order, so a slot
  that \<^verbatim>\<open>memset\<close> cleared holds the last attribute of its kind, or \<open>NULL\<close>. A block
  that is up to 4 bytes longer holds the same attributes and at most one more.
\<close>

lemma sint_sub_const:
  assumes "uint (x :: 32 word) < 2 ^ 31" and "uint (c :: 32 word) < 2 ^ 31"
  shows "sint (x - c) = uint x - uint c"
proof -
  have sx: "sint x = uint x" using assms(1) by (rule sint_eq_uint_small)
  have sc: "sint c = uint c" using assms(2) by (rule sint_eq_uint_small)
  have nx: "0 \<le> uint x" and nc: "0 \<le> uint c" by (rule uint_nonnegative)+
  have x: "uint x < 2147483648" and c: "uint c < 2147483648" using assms by simp_all
  have lo: "- 2147483648 \<le> uint x - uint c" using nx c by linarith
  have hi: "uint x - uint c < 2147483648" using x nc by linarith
  have "signed_take_bit 31 (uint x - uint c) = uint x - uint c"
    by (rule signed_take_bit_int_eq_self) (use lo hi in simp_all)
  then show ?thesis by (simp add: sint_word_diff sx sc)
qed

lemma sint_notify_len:
  "uint (nlmsg_len mem p) < 2 ^ 31 \<Longrightarrow> sint (notify_len mem p) = uint (nlmsg_len mem p) - 32"
  using sint_sub_const [of "nlmsg_len mem p" 32] by (simp add: notify_len_eq)

lemma sint_RTM_PAYLOAD:
  "uint (nlmsg_len mem p) < 2 ^ 31 \<Longrightarrow> sint (RTM_PAYLOAD mem p) = uint (nlmsg_len mem p) - 28"
  using sint_sub_const [of "nlmsg_len mem p" 28] by (simp add: RTM_PAYLOAD_eq)

lemma attrs_loop_chain:
  "attrs_loop rta_max mem attrs rta len
   = foldl (store_attr rta_max mem) attrs (rta_chain mem rta len)"
proof (induction rta_max mem attrs rta len rule: attrs_loop.induct)
  case (1 rta_max mem attrs rta len)
  show ?case
  proof (cases "RTA_OK mem rta len")
    case True
    have st: "store_attr rta_max mem attrs rta
              = (if unat (rta_type mem rta) \<le> rta_max
                 then attrs[unat (rta_type mem rta) := rta] else attrs)"
      by (simp add: store_attr_def)
    have "attrs_loop rta_max mem attrs rta len
          = attrs_loop rta_max mem (store_attr rta_max mem attrs rta)
              (rta + ucast (RTA_ALIGN (rta_len mem rta))) (len - RTA_ALIGN (rta_len mem rta))"
      using True by (subst attrs_loop.simps) (simp add: store_attr_def)
    also have "\<dots> = foldl (store_attr rta_max mem) (store_attr rta_max mem attrs rta)
              (rta_chain mem (rta + ucast (RTA_ALIGN (rta_len mem rta)))
                 (len - RTA_ALIGN (rta_len mem rta)))"
      by (simp only: st "1.IH" [OF True])
    also have "\<dots> = foldl (store_attr rta_max mem) attrs (rta_chain mem rta len)"
      using True by (subst (2) rta_chain.simps) simp
    finally show ?thesis .
  next
    case False
    then show ?thesis
      by (subst attrs_loop.simps, subst rta_chain.simps) simp
  qed
qed

lemma length_store_attr: "length (store_attr rta_max mem attrs rta) = length attrs"
  by (simp add: store_attr_def)

lemma length_foldl_store: "length (foldl (store_attr rta_max mem) attrs as) = length attrs"
  by (induction as arbitrary: attrs) (simp_all add: length_store_attr)

lemma case_snoc_last:
  "(case ys @ [a] of [] \<Rightarrow> d | x # xs \<Rightarrow> last (x # xs)) = a"
  by (cases ys) simp_all

lemma foldl_store_slot:
  assumes "k < length attrs" and "k \<le> rta_max"
  shows "foldl (store_attr rta_max mem) attrs as ! k
         = (case filter (is_kind mem k) as of
              [] \<Rightarrow> attrs ! k
            | x # xs \<Rightarrow> last (x # xs))"
  using assms
proof (induction as rule: rev_induct)
  case Nil
  then show ?case by simp
next
  case (snoc a as)
  define t where "t = foldl (store_attr rta_max mem) attrs as"
  have l: "k < length t"
    using snoc.prems(1) by (simp add: t_def length_foldl_store)
  have f: "foldl (store_attr rta_max mem) attrs (as @ [a]) = store_attr rta_max mem t a"
    by (simp add: t_def)
  show ?case
  proof (cases "is_kind mem k a")
    case True
    have "store_attr rta_max mem t a ! k = a"
      using True l snoc.prems(2) by (simp add: store_attr_def is_kind_def)
    moreover have "filter (is_kind mem k) (as @ [a]) = filter (is_kind mem k) as @ [a]"
      using True by simp
    ultimately show ?thesis
      by (simp only: f case_snoc_last)
  next
    case False
    have "store_attr rta_max mem t a ! k = t ! k"
      using False by (simp add: store_attr_def is_kind_def)
    moreover have "filter (is_kind mem k) (as @ [a]) = filter (is_kind mem k) as"
      using False by simp
    ultimately show ?thesis
      using snoc.IH [OF snoc.prems] by (simp only: f t_def)
  qed
qed

lemma mask_ge_64: "64 \<le> m \<Longrightarrow> (mask m :: 64 word) = - 1"
  by (rule bit_word_eqI) (simp add: bit_simps)

lemma memset_ptrs_length: "length (memset_ptrs attrs n) = length attrs"
  by (simp add: memset_ptrs_def)

lemma memset_ptrs_cleared:
  assumes "i < length attrs" and "8 * Suc i \<le> n"
  shows "memset_ptrs attrs n ! i = NULL"
proof -
  have "64 \<le> 8 * (n - 8 * i)" using assms(2) by simp
  then have "(mask (8 * (n - 8 * i)) :: 64 word) = - 1" by (rule mask_ge_64)
  then show ?thesis using assms(1) by (simp add: memset_ptrs_def NULL_def)
qed

lemma memset_ptrs_kept:
  assumes "i < length attrs" and "n \<le> 8 * i"
  shows "memset_ptrs attrs n ! i = attrs ! i"
  using assms by (simp add: memset_ptrs_def)

lemma parse_attrs_slot:
  assumes "k < length attrs" and "8 * Suc k \<le> 4 * (RTA_MAX pf + 1)"
  shows "parse_attrs pf mem attrs rta len ! k
         = (case filter (is_kind mem k) (rta_chain mem rta len) of
              [] \<Rightarrow> NULL
            | x # xs \<Rightarrow> last (x # xs))"
proof -
  have k: "k \<le> RTA_MAX pf" using assms(2) by simp
  have l: "k < length (memset_ptrs attrs (unat sizeof_rtattr * (RTA_MAX pf + 1)))"
    using assms(1) by (simp add: memset_ptrs_def)
  have c: "memset_ptrs attrs (unat sizeof_rtattr * (RTA_MAX pf + 1)) ! k = NULL"
    using assms by (intro memset_ptrs_cleared) (simp_all add: sizeof_rtattr_def)
  show ?thesis
    by (simp only: parse_attrs_def attrs_loop_chain foldl_store_slot [OF l k] c)
qed

lemma RTA_OK_mono:
  "RTA_OK mem rta l \<Longrightarrow> sint l \<le> sint l' \<Longrightarrow> RTA_OK mem rta l'"
  by (auto simp add: RTA_OK_iff)

lemma rta_chain_extend:
  assumes "sint l \<le> sint l'" and "sint l' \<le> sint l + 4"
  shows "\<exists>ys. rta_chain mem rta l' = rta_chain mem rta l @ ys \<and> length ys \<le> 1"
  using assms
proof (induction mem rta l arbitrary: l' rule: rta_chain.induct)
  case (1 mem rta len)
  let ?a = "RTA_ALIGN (rta_len mem rta)"
  show ?case
  proof (cases "RTA_OK mem rta len")
    case True
    have ok': "RTA_OK mem rta l'" using True "1.prems"(1) by (rule RTA_OK_mono)
    have s: "sint (len - ?a) = sint len - int (unat ?a)" by (rule RTA_OK_next(1) [OF True])
    have s': "sint (l' - ?a) = sint l' - int (unat ?a)" by (rule RTA_OK_next(1) [OF ok'])
    have "sint (len - ?a) \<le> sint (l' - ?a)" and "sint (l' - ?a) \<le> sint (len - ?a) + 4"
      using "1.prems" s s' by linarith+
    then obtain ys where
      ys: "rta_chain mem (rta + ucast ?a) (l' - ?a) = rta_chain mem (rta + ucast ?a) (len - ?a) @ ys"
      and n: "length ys \<le> 1"
      using "1.IH" [OF True] by blast
    have "rta_chain mem rta l' = rta # rta_chain mem (rta + ucast ?a) (l' - ?a)"
      using ok' by (subst rta_chain.simps) simp
    moreover have "rta_chain mem rta len = rta # rta_chain mem (rta + ucast ?a) (len - ?a)"
      using True by (subst rta_chain.simps) simp
    ultimately have "rta_chain mem rta l' = rta_chain mem rta len @ ys"
      by (simp add: ys)
    then show ?thesis using n by blast
  next
    case False
    have e: "rta_chain mem rta len = []"
      using False by (subst rta_chain.simps) simp
    show ?thesis
    proof (cases "RTA_OK mem rta l'")
      case no: False
      then have "rta_chain mem rta l' = []" by (subst rta_chain.simps) simp
      then show ?thesis using e by simp
    next
      case ok': True
      have s': "sint (l' - ?a) = sint l' - int (unat ?a)" by (rule RTA_OK_next(1) [OF ok'])
      have n4: "4 \<le> unat (rta_len mem rta)" and le: "unat (rta_len mem rta) \<le> unat ?a"
        using ok' RTA_OK_next(2) [OF ok'] by (simp_all only: RTA_OK_iff)
      have "sint len < 4 \<or> sint len < int (unat (rta_len mem rta))"
        using False n4 by (auto simp add: RTA_OK_iff)
      then have "sint (l' - ?a) < 4"
        using "1.prems"(2) s' n4 le by linarith
      then have "\<not> RTA_OK mem (rta + ucast ?a) (l' - ?a)"
        by (auto simp add: RTA_OK_iff)
      then have "rta_chain mem (rta + ucast ?a) (l' - ?a) = []"
        by (subst rta_chain.simps) simp
      then have "rta_chain mem rta l' = [rta]"
        using ok' by (subst rta_chain.simps) simp
      then show ?thesis using e by simp
    qed
  qed
qed

subsection \<open>What \<^verbatim>\<open>notify\<close> writes\<close>

text \<open>
  C5 (as amended). A dispatched message whose type is neither \<^verbatim>\<open>RTM_NEWROUTE\<close> nor
  \<^verbatim>\<open>RTM_DELROUTE\<close> is not dropped silently: \<^verbatim>\<open>notify\<close> writes exactly one error record
  for it, the 13 bytes 255, 11, "not a route", and no route event.
\<close>

theorem notify_not_a_route:
  assumes "nlmsg_type mem p \<noteq> RTM_NEWROUTE" and "nlmsg_type mem p \<noteq> RTM_DELROUTE"
  shows "notify pf mem attrs0 p = [error_reply (ascii ''not a route'')]
         \<and> concat (concat (notify pf mem attrs0 p)) = 255 # 11 # ascii ''not a route''"
  using assms by (simp add: notify_def error_reply_def RTM_CMD_ROUTE_ERR_def ascii_def)

theorem notify_not_a_route_witness:
  "nlmsg_type (mem_of link_msg) 0 \<noteq> RTM_NEWROUTE
   \<and> nlmsg_type (mem_of link_msg) 0 \<noteq> RTM_DELROUTE
   \<and> notify build30 (mem_of link_msg) (replicate 31 0) 0 = [error_reply (ascii ''not a route'')]"
proof -
  have t: "nlmsg_type (mem_of link_msg) 0 = 16"
    by (simp add: nlmsg_type_def read_u16_def mem_of_def link_msg_def)
  have a: "nlmsg_type (mem_of link_msg) 0 \<noteq> RTM_NEWROUTE"
    and b: "nlmsg_type (mem_of link_msg) 0 \<noteq> RTM_DELROUTE"
    by (simp_all add: t RTM_NEWROUTE_def RTM_DELROUTE_def)
  show ?thesis
    using a b notify_not_a_route [OF a b, of build30 "replicate 31 0"] by simp
qed

text \<open>
  The statement of the specification (no bytes at all are written) fails for a link
  notification.
\<close>

theorem link_message_not_silent:
  "nlmsg_type (mem_of link_msg) 0 \<noteq> RTM_NEWROUTE
   \<and> nlmsg_type (mem_of link_msg) 0 \<noteq> RTM_DELROUTE
   \<and> concat (concat (notify build30 (mem_of link_msg) (replicate 31 0) 0))
       = [255, 11, 110, 111, 116, 32, 97, 32, 114, 111, 117, 116, 101]"
  by code_simp

text \<open>
  A route message for which the length that \<^verbatim>\<open>notify\<close> computes is not negative is
  dropped without a record when it carries the program's own origin protocol or belongs
  to another table than the main one.
\<close>

lemma notify_filtered:
  assumes "nlmsg_type mem p = RTM_NEWROUTE \<or> nlmsg_type mem p = RTM_DELROUTE"
    and "\<not> notify_len mem p <s 0"
    and "uint (rtm_protocol mem (NLMSG_DATA p)) = RTPROT_ROUTEMACHINE pf
         \<or> rtm_table mem (NLMSG_DATA p) \<noteq> RT_TABLE_MAIN"
  shows "notify pf mem attrs0 p = []"
  using assms by (auto simp add: notify_def Let_def)


lemma notify_filtered_local:
  "notify build30 (mem_of local_msg) (replicate 31 0) 0 = []"
  by code_simp

text \<open>
  C6. \<^verbatim>\<open>notify\<close> computes the length of the attribute block as
  \<^verbatim>\<open>nlmsg_len - NLMSG_LENGTH(sizeof(*nlmsgp))\<close>, the declared length less 32, while
  the block starts 28 bytes into the message (\<^verbatim>\<open>RTM_RTA\<close>): the header is counted
  where \<^verbatim>\<open>struct rtmsg\<close> is meant. A route message of 28 bytes, a header and a
  \<^verbatim>\<open>struct rtmsg\<close> without attributes, gets the length -4 and the error record "wrong
  message length", also when it carries the program's own origin protocol and is to be
  dropped without any record.
\<close>

theorem short_own_route_reported:
  "nlmsg_type (mem_of short_own_msg) 0 = RTM_NEWROUTE
   \<and> nlmsg_len (mem_of short_own_msg) 0 = 28
   \<and> msg_attrs (mem_of short_own_msg) 0 = []
   \<and> uint (rtm_protocol (mem_of short_own_msg) (NLMSG_DATA 0)) = RTPROT_ROUTEMACHINE build30
   \<and> notify build30 (mem_of short_own_msg) (replicate 31 0) 0
       = [[[255], [20], ascii ''wrong message length'']]"
  by code_simp

lemma notify_accepted:
  assumes "nlmsg_type mem p = RTM_NEWROUTE \<or> nlmsg_type mem p = RTM_DELROUTE"
    and "\<not> notify_len mem p <s 0"
    and "uint (rtm_protocol mem (NLMSG_DATA p)) \<noteq> RTPROT_ROUTEMACHINE pf"
    and "rtm_table mem (NLMSG_DATA p) = RT_TABLE_MAIN"
    and "rtm_family mem (NLMSG_DATA p) = AF_INET \<or> rtm_family mem (NLMSG_DATA p) = AF_INET6"
  shows "\<exists>cmd host_len. notify pf mem attrs0 p
           = [route_record pf mem attrs0 (NLMSG_DATA p) (notify_len mem p) cmd host_len]"
  using assms by (auto simp add: notify_def Let_def)

lemma route_record_dst:
  "length (route_record pf mem attrs0 rtmp len cmd host_len) = 5"
  "route_record pf mem attrs0 rtmp len cmd host_len ! DST
   = (if parse_attrs pf mem attrs0 (RTM_RTA rtmp) len ! RTA_DST \<noteq> NULL
      then read_bytes mem (RTA_DATA (parse_attrs pf mem attrs0 (RTM_RTA rtmp) len ! RTA_DST))
             ((unat (rtm_dst_len mem rtmp) + 7) div 8)
      else [0, 0, 0, 0])"
  by (simp_all add: route_record_def Let_def DST_def bytes_of_u32_def INADDR_ANY_def)

lemma last_filter_in:
  "filter P xs = y # ys \<Longrightarrow> last (y # ys) \<in> set xs \<and> P (last (y # ys))"
proof -
  assume a: "filter P xs = y # ys"
  have "last (y # ys) \<in> set (filter P xs)" unfolding a by (rule last_in_set) simp
  then show ?thesis by simp
qed

text \<open>
  C1 (as amended). A route event that \<^verbatim>\<open>notify\<close> emits is one \<^verbatim>\<open>writev\<close> call of
  five segments. When the message carries a destination attribute that is not its last
  attribute, the destination segment has \<open>(prefix_len + 7) div 8\<close> bytes, which depends
  on the prefix length: they are the first bytes of the payload of a destination
  attribute of the message. When an IPv4 message carries no destination attribute, the
  segment is 4 zero bytes. (The message declares less than \<open>2^31\<close> bytes, none of its
  attributes lies at the null address, and the table has the \<^verbatim>\<open>RTA_MAX + 1\<close> slots of
  its declaration, \<^verbatim>\<open>RTA_PRIORITY\<close> being a kind the headers know.)
\<close>

theorem notify_dst_field:
  assumes "nlmsg_type mem p = RTM_NEWROUTE \<or> nlmsg_type mem p = RTM_DELROUTE"
    and "\<not> notify_len mem p <s 0"
    and "uint (nlmsg_len mem p) < 2 ^ 31"
    and "uint (rtm_protocol mem (NLMSG_DATA p)) \<noteq> RTPROT_ROUTEMACHINE pf"
    and "rtm_table mem (NLMSG_DATA p) = RT_TABLE_MAIN"
    and "rtm_family mem (NLMSG_DATA p) = AF_INET \<or> rtm_family mem (NLMSG_DATA p) = AF_INET6"
    and "length attrs0 = RTA_MAX pf + 1" and "RTA_PRIORITY \<le> RTA_MAX pf"
    and "NULL \<notin> set (msg_attrs mem p)"
  shows "length (notify pf mem attrs0 p) = 1
         \<and> length (notify pf mem attrs0 p ! 0) = 5
         \<and> ((\<exists>a \<in> set (butlast (msg_attrs mem p)). is_kind mem RTA_DST a) \<longrightarrow>
              length (notify pf mem attrs0 p ! 0 ! DST)
                = (unat (rtm_dst_len mem (NLMSG_DATA p)) + 7) div 8
              \<and> (\<exists>a \<in> set (msg_attrs mem p). is_kind mem RTA_DST a
                    \<and> notify pf mem attrs0 p ! 0 ! DST
                        = read_bytes mem (RTA_DATA a)
                            ((unat (rtm_dst_len mem (NLMSG_DATA p)) + 7) div 8)))
         \<and> ((\<forall>a \<in> set (msg_attrs mem p). \<not> is_kind mem RTA_DST a)
              \<and> rtm_family mem (NLMSG_DATA p) = AF_INET \<longrightarrow>
              notify pf mem attrs0 p ! 0 ! DST = [0, 0, 0, 0])"
proof -
  let ?rtmp = "NLMSG_DATA p"
  let ?n = "(unat (rtm_dst_len mem ?rtmp) + 7) div 8"
  let ?parsed = "rta_chain mem (RTM_RTA ?rtmp) (notify_len mem p)"
  let ?slot = "parse_attrs pf mem attrs0 (RTM_RTA ?rtmp) (notify_len mem p) ! RTA_DST"
  obtain cmd host_len where
    n: "notify pf mem attrs0 p = [route_record pf mem attrs0 ?rtmp (notify_len mem p) cmd host_len]"
    using notify_accepted [OF assms(1,2,4,5,6)] by blast
  have seg: "notify pf mem attrs0 p ! 0 ! DST
             = (if ?slot \<noteq> NULL then read_bytes mem (RTA_DATA ?slot) ?n else [0, 0, 0, 0])"
    by (simp add: n route_record_dst)
  have s32: "sint (notify_len mem p) = uint (nlmsg_len mem p) - 32"
    using assms(3) by (rule sint_notify_len)
  have s28: "sint (RTM_PAYLOAD mem p) = uint (nlmsg_len mem p) - 28"
    using assms(3) by (rule sint_RTM_PAYLOAD)
  obtain ys where ext: "msg_attrs mem p = ?parsed @ ys" and ys: "length ys \<le> 1"
    using rta_chain_extend [of "notify_len mem p" "RTM_PAYLOAD mem p" mem "RTM_RTA ?rtmp"] s32 s28
    by (auto simp add: msg_attrs_def)
  have k: "RTA_DST < length attrs0" and c: "8 * Suc RTA_DST \<le> 4 * (RTA_MAX pf + 1)"
    using assms(7,8) by (simp_all add: RTA_DST_def RTA_PRIORITY_def)
  have slot: "?slot = (case filter (is_kind mem RTA_DST) ?parsed of
                         [] \<Rightarrow> NULL | x # xs \<Rightarrow> last (x # xs))"
    using k c by (rule parse_attrs_slot)
  have present:
    "length (notify pf mem attrs0 p ! 0 ! DST) = ?n
     \<and> (\<exists>a \<in> set (msg_attrs mem p). is_kind mem RTA_DST a
           \<and> notify pf mem attrs0 p ! 0 ! DST = read_bytes mem (RTA_DATA a) ?n)"
    if h: "\<exists>a \<in> set (butlast (msg_attrs mem p)). is_kind mem RTA_DST a"
  proof -
    obtain a where a: "a \<in> set (butlast (msg_attrs mem p))" and ka: "is_kind mem RTA_DST a"
      using h by blast
    have "set (butlast (?parsed @ ys)) \<subseteq> set ?parsed"
    proof (cases ys)
      case Nil
      then show ?thesis using in_set_butlastD by auto
    next
      case (Cons y zs)
      then have "zs = []" using ys by simp
      then show ?thesis using Cons by (simp add: butlast_append)
    qed
    then have "a \<in> set ?parsed" using a ext by auto
    then have "filter (is_kind mem RTA_DST) ?parsed \<noteq> []"
      using ka by (auto simp add: filter_empty_conv)
    then obtain x xs where f: "filter (is_kind mem RTA_DST) ?parsed = x # xs"
      by (cases "filter (is_kind mem RTA_DST) ?parsed") auto
    have sl: "?slot = last (x # xs)" by (simp only: slot f list.case)
    have "last (x # xs) \<in> set ?parsed" and kl: "is_kind mem RTA_DST (last (x # xs))"
      using last_filter_in [OF f] by blast+
    then have m: "?slot \<in> set (msg_attrs mem p)" by (simp add: sl ext)
    then have nn: "?slot \<noteq> NULL" using assms(9) by auto
    have "notify pf mem attrs0 p ! 0 ! DST = read_bytes mem (RTA_DATA ?slot) ?n"
      using nn by (simp add: seg)
    then show ?thesis using m kl sl by (auto simp add: length_read_bytes)
  qed
  have absent: "notify pf mem attrs0 p ! 0 ! DST = [0, 0, 0, 0]"
    if h: "\<forall>a \<in> set (msg_attrs mem p). \<not> is_kind mem RTA_DST a"
  proof -
    have "filter (is_kind mem RTA_DST) ?parsed = []"
      using h ext by (auto simp add: filter_empty_conv)
    then have "?slot = NULL" by (simp only: slot list.case)
    then show ?thesis by (simp only: seg) simp
  qed
  show ?thesis
    using present absent by (simp add: n route_record_dst(1))
qed

theorem notify_dst_field_witness:
  "(nlmsg_type (mem_of route4_msg) 0 = RTM_NEWROUTE \<or> nlmsg_type (mem_of route4_msg) 0 = RTM_DELROUTE)
   \<and> \<not> notify_len (mem_of route4_msg) 0 <s 0
   \<and> uint (nlmsg_len (mem_of route4_msg) 0) < 2 ^ 31
   \<and> uint (rtm_protocol (mem_of route4_msg) (NLMSG_DATA 0)) \<noteq> RTPROT_ROUTEMACHINE build30
   \<and> rtm_table (mem_of route4_msg) (NLMSG_DATA 0) = RT_TABLE_MAIN
   \<and> rtm_family (mem_of route4_msg) (NLMSG_DATA 0) = AF_INET
   \<and> length (replicate 31 (0 :: addr)) = RTA_MAX build30 + 1
   \<and> RTA_PRIORITY \<le> RTA_MAX build30
   \<and> msg_attrs (mem_of route4_msg) 0 = [28, 36]
   \<and> is_kind (mem_of route4_msg) RTA_DST 28
   \<and> unat (rtm_dst_len (mem_of route4_msg) (NLMSG_DATA 0)) = 24
   \<and> notify build30 (mem_of route4_msg) (replicate 31 0) 0 ! 0 ! DST = [10, 0, 0]
   \<and> (nlmsg_type (mem_of default4_msg) 0 = RTM_NEWROUTE \<or> nlmsg_type (mem_of default4_msg) 0 = RTM_DELROUTE)
   \<and> \<not> notify_len (mem_of default4_msg) 0 <s 0
   \<and> uint (nlmsg_len (mem_of default4_msg) 0) < 2 ^ 31
   \<and> uint (rtm_protocol (mem_of default4_msg) (NLMSG_DATA 0)) \<noteq> RTPROT_ROUTEMACHINE build30
   \<and> rtm_table (mem_of default4_msg) (NLMSG_DATA 0) = RT_TABLE_MAIN
   \<and> rtm_family (mem_of default4_msg) (NLMSG_DATA 0) = AF_INET
   \<and> msg_attrs (mem_of default4_msg) 0 = [28, 36]
   \<and> \<not> is_kind (mem_of default4_msg) RTA_DST 28
   \<and> \<not> is_kind (mem_of default4_msg) RTA_DST 36
   \<and> notify build30 (mem_of default4_msg) (replicate 31 0) 0 ! 0 ! DST = [0, 0, 0, 0]"
proof -
  let ?m = "mem_of route4_msg" and ?d = "mem_of default4_msg"
  have a: "nlmsg_type ?m 0 = RTM_NEWROUTE \<or> nlmsg_type ?m 0 = RTM_DELROUTE" by code_simp
  have b: "\<not> notify_len ?m 0 <s 0" by code_simp
  have u: "uint (nlmsg_len ?m 0) < 2 ^ 31" by code_simp
  have c: "uint (rtm_protocol ?m (NLMSG_DATA 0)) \<noteq> RTPROT_ROUTEMACHINE build30" by code_simp
  have d: "rtm_table ?m (NLMSG_DATA 0) = RT_TABLE_MAIN" by code_simp
  have e: "rtm_family ?m (NLMSG_DATA 0) = AF_INET" by code_simp
  have l: "length (replicate 31 (0 :: addr)) = RTA_MAX build30 + 1" by code_simp
  have r: "RTA_PRIORITY \<le> RTA_MAX build30" by code_simp
  have m: "msg_attrs ?m 0 = [28, 36]" by code_simp
  have k: "is_kind ?m RTA_DST 28" by code_simp
  have k36: "\<not> is_kind ?m RTA_DST 36" by code_simp
  have g: "unat (rtm_dst_len ?m (NLMSG_DATA 0)) = 24" by code_simp
  have rb: "read_bytes ?m (RTA_DATA 28) 3 = [10, 0, 0]" by code_simp
  have z: "NULL \<notin> set (msg_attrs ?m 0)" by (simp add: m NULL_def)
  have a': "nlmsg_type ?d 0 = RTM_NEWROUTE \<or> nlmsg_type ?d 0 = RTM_DELROUTE" by code_simp
  have b': "\<not> notify_len ?d 0 <s 0" by code_simp
  have u': "uint (nlmsg_len ?d 0) < 2 ^ 31" by code_simp
  have c': "uint (rtm_protocol ?d (NLMSG_DATA 0)) \<noteq> RTPROT_ROUTEMACHINE build30" by code_simp
  have d': "rtm_table ?d (NLMSG_DATA 0) = RT_TABLE_MAIN" by code_simp
  have e': "rtm_family ?d (NLMSG_DATA 0) = AF_INET" by code_simp
  have m': "msg_attrs ?d 0 = [28, 36]" by code_simp
  have k': "\<not> is_kind ?d RTA_DST 28" by code_simp
  have k36': "\<not> is_kind ?d RTA_DST 36" by code_simp
  have z': "NULL \<notin> set (msg_attrs ?d 0)" by (simp add: m' NULL_def)
  note t = notify_dst_field [OF a b u c d disjI1 [OF e] l r z]
  note t' = notify_dst_field [OF a' b' u' c' d' disjI1 [OF e'] l r z']
  have s1: "notify build30 ?m (replicate 31 0) 0 ! 0 ! DST = [10, 0, 0]"
    using t k k36 by (simp add: m g rb)
  have s2: "notify build30 ?d (replicate 31 0) 0 ! 0 ! DST = [0, 0, 0, 0]"
    using t' k' k36' e' by (simp add: m')
  show ?thesis
    using a b u c d e l r m k g s1 a' b' u' c' d' e' m' k' k36' s2 by simp
qed

text \<open>
  The statement of the specification (4 bytes for IPv4 whatever the prefix length) fails
  for 10.0.0.0/24: the destination segment has 3 bytes.
\<close>

theorem ipv4_destination_three_bytes:
  "nlmsg_type (mem_of route4_msg) 0 = RTM_NEWROUTE
   \<and> rtm_family (mem_of route4_msg) (NLMSG_DATA 0) = AF_INET
   \<and> notify build30 (mem_of route4_msg) (replicate 31 0) 0
       = [[[0], [24], [10, 0, 0], [0, 0, 0, 0], [0, 0, 0, 0]]]
   \<and> length (notify build30 (mem_of route4_msg) (replicate 31 0) 0 ! 0 ! DST) \<noteq> 4"
  by code_simp

text \<open>
  The last attribute of a message lies outside the block that \<^verbatim>\<open>notify\<close> hands to
  \<^verbatim>\<open>parse_attrs\<close> (the length is 4 bytes short, see C6): with the destination
  attribute last, the message is treated as one without destination.
\<close>

lemma last_attribute_not_parsed:
  "msg_attrs (mem_of dst_last_msg) 0 = [28, 36]
   \<and> is_kind (mem_of dst_last_msg) RTA_DST 36
   \<and> rta_chain (mem_of dst_last_msg) (RTM_RTA (NLMSG_DATA 0)) (notify_len (mem_of dst_last_msg) 0)
       = [28]
   \<and> notify build30 (mem_of dst_last_msg) (replicate 31 0) 0
       = [[[0], [24], [0, 0, 0, 0], [0, 0, 0, 0], [0, 0, 0, 0]]]"
  by code_simp

lemma route_record_absent:
  assumes "parse_attrs pf mem attrs0 (RTM_RTA rtmp) len ! RTA_GATEWAY = NULL"
  shows "route_record pf mem attrs0 rtmp len cmd host_len ! GW = [0, 0, 0, 0]"
  using assms by (simp add: route_record_def Let_def GW_def bytes_of_u32_def INADDR_ANY_def)

text \<open>
  C2. A message that omits the gateway (or destination) attribute gets the 4 bytes of
  \<^verbatim>\<open>struct in_addr any\<close> in that field, whatever the family. For the IPv6 route
  fe80::/64 without gateway the gateway segment is 4 zero bytes, where the family's
  width is 16 (the width \<^verbatim>\<open>host_len\<close> that the branch for a present gateway uses).
\<close>

theorem ipv6_absent_gateway_four_bytes:
  "nlmsg_type (mem_of route6_msg) 0 = RTM_NEWROUTE
   \<and> rtm_family (mem_of route6_msg) (NLMSG_DATA 0) = AF_INET6
   \<and> parse_attrs build30 (mem_of route6_msg) (replicate 31 0) (RTM_RTA (NLMSG_DATA 0))
        (notify_len (mem_of route6_msg) 0) ! RTA_GATEWAY = NULL
   \<and> notify build30 (mem_of route6_msg) (replicate 31 0) 0
       = [[[0], [64], [0xFE, 0x80, 0, 0, 0, 0, 0, 0], [0, 0, 0, 0], [0, 0, 0, 0]]]
   \<and> notify build30 (mem_of route6_msg) (replicate 31 0) 0 ! 0 ! GW = [0, 0, 0, 0]"
  by code_simp

subsection \<open>The attribute table\<close>

text \<open>
  C4. \<^verbatim>\<open>memset\<close> is given \<^verbatim>\<open>sizeof(*rta) * (RTA_MAX + 1)\<close>, 4 bytes per slot, for a
  table of 8-byte pointers: with \<^verbatim>\<open>RTA_MAX = 30\<close> it clears the slots 0 to 14 and half
  of slot 15. Called on an empty attribute block with a table in which every slot holds
  the stale pointer \<open>0x7FFD00001000\<close>, \<^verbatim>\<open>parse_attrs\<close> leaves the slots 16 to 30 as they
  were and slot 15 half cleared: kind 20 does not occur in the block and its entry is not
  empty.
\<close>

theorem parse_attrs_stale_slots:
  "\<not> RTA_OK (mem_of []) 0 0
   \<and> parse_attrs build30 (mem_of []) (replicate 31 0x7FFD00001000) 0 0
       = replicate 15 NULL @ [0x7FFD00000000] @ replicate 15 0x7FFD00001000
   \<and> parse_attrs build30 (mem_of []) (replicate 31 0x7FFD00001000) 0 0 ! 20 \<noteq> NULL"
  by code_simp


subsection \<open>Reading a batch\<close>

lemma read_loop_whole:
  assumes "frame_whole mem buf (p, ret)"
  shows "read_loop pf uninit mem buf msg_flags errno out p ret
         = read_loop pf uninit mem buf msg_flags errno (out @ dispatch pf uninit mem p)
             (fst (next_frame mem (p, ret))) (snd (next_frame mem (p, ret)))"
  using whole_tests [OF assms]
  by (subst read_loop.simps) (simp add: dispatch_def next_frame_def)

lemma read_loop_cut:
  assumes "frame_cut mem buf (p, ret)" and "msg_flags AND MSG_TRUNC \<noteq> 0"
  shows "read_loop pf uninit mem buf msg_flags errno out p ret
         = Some (out @ [error_reply (error_text pf errno (ascii ''truncated message''))], Exited 1)"
  using cut_tests [OF assms(1)] assms(2)
  by (subst read_loop.simps) (simp add: error_quit_def)

lemma read_loop_short:
  assumes "short_tail (p, ret)" and "msg_flags AND MSG_TRUNC \<noteq> 0"
  shows "read_loop pf uninit mem buf msg_flags errno out p ret = Some (out, Returned)"
proof -
  have "\<not> sizeof_nlmsghdr \<le> scast ret"
    using assms(1) by (intro size_t_less_16) (simp_all add: short_tail_def)
  then show ?thesis
    using assms(2) by (subst read_loop.simps) simp
qed

lemma read_loop_done:
  "read_loop pf uninit mem buf msg_flags errno out p 0 = Some (out, Returned)"
  by (subst read_loop.simps) (simp add: sizeof_nlmsghdr_def)

lemma read_loop_run:
  assumes "\<forall>i<k. frame_whole mem buf (frame_at mem (p, ret) i)"
  shows "read_loop pf uninit mem buf msg_flags errno out p ret
         = read_loop pf uninit mem buf msg_flags errno
             (out @ concat (map (\<lambda>i. dispatch pf uninit mem (fst (frame_at mem (p, ret) i))) [0..<k]))
             (fst (frame_at mem (p, ret) k)) (snd (frame_at mem (p, ret) k))"
  using assms
proof (induction k arbitrary: p ret out)
  case 0
  then show ?case by simp
next
  case (Suc k)
  obtain p' ret' where n: "next_frame mem (p, ret) = (p', ret')"
    by (cases "next_frame mem (p, ret)")
  have c: "frame_whole mem buf (p, ret)"
    using Suc.prems by (auto dest: spec [of _ 0])
  have a: "\<forall>i<k. frame_whole mem buf (frame_at mem (p', ret') i)"
  proof (intro allI impI)
    fix i assume "i < k"
    then have "Suc i < Suc k" by simp
    then have "frame_whole mem buf (frame_at mem (p, ret) (Suc i))"
      using Suc.prems by blast
    then show "frame_whole mem buf (frame_at mem (p', ret') i)"
      by (simp add: n)
  qed
  have m: "map (\<lambda>i. dispatch pf uninit mem (fst (frame_at mem (p, ret) i))) [0..<Suc k]
           = dispatch pf uninit mem p
             # map (\<lambda>i. dispatch pf uninit mem (fst (frame_at mem (p', ret') i))) [0..<k]"
    by (simp only: upt_conv_Cons [OF zero_less_Suc] map_Suc_upt [symmetric] list.map map_map)
       (simp add: n comp_def)
  show ?case
    by (simp only: read_loop_whole [OF c] n fst_conv snd_conv Suc.IH [OF a] m frame_at.simps)
       simp
qed

text \<open>
  A frame that declares the length \<open>0xFFFFFFFF\<close> passes both tests of the loop (as an
  \<^verbatim>\<open>int\<close> it is \<open>-1\<close>) and \<^verbatim>\<open>NLMSG_ALIGN\<close> of it is 0: the loop stays where it is.
\<close>

lemma read_loop_can_stall:
  "sizeof_nlmsghdr \<le> scast (16 :: 32 word)
   \<and> hdr_in_buf 0 0
   \<and> \<not> (scast (nlmsg_len (mem_of stall_hdr) 0) :: 64 word) < sizeof_nlmsghdr
   \<and> \<not> (16 :: 32 word) <s nlmsg_len (mem_of stall_hdr) 0
   \<and> next_frame (mem_of stall_hdr) (0, 16) = (0, 16)"
  by code_simp

text \<open>
  C3 (as amended). Take a batch that is not empty, comes with the expected sender address
  length and was flagged as truncated, and that starts with \<open>k\<close> whole frames. If a cut
  frame follows (at least the 16 bytes of its header remain and it declares more bytes
  than remain), \<^verbatim>\<open>read_routes\<close> writes what the \<open>k\<close> whole frames produce, then the
  error record "truncated message", and the process ends with status 1: this case is
  fatal. If fewer than 16 bytes remain after the \<open>k\<close> frames, \<^verbatim>\<open>read_routes\<close> writes
  what the \<open>k\<close> whole frames produce and returns: this case is not fatal.
\<close>

theorem read_routes_truncated_batch:
  assumes "n \<noteq> 0" and "msg_flags AND MSG_TRUNC \<noteq> 0"
    and "\<forall>i<k. frame_whole mem buf (frame_at mem (buf, of_nat n) i)"
  shows "(frame_cut mem buf (frame_at mem (buf, of_nat n) k) \<longrightarrow>
            read_routes pf uninit errno0 (Recv_Ok n sizeof_sockaddr_nl msg_flags) mem buf
            = Some (concat (map (\<lambda>i. dispatch pf uninit mem (fst (frame_at mem (buf, of_nat n) i))) [0..<k])
                      @ [error_reply (error_text pf errno0 (ascii ''truncated message''))],
                    Exited 1))
         \<and> (short_tail (frame_at mem (buf, of_nat n) k) \<longrightarrow>
            read_routes pf uninit errno0 (Recv_Ok n sizeof_sockaddr_nl msg_flags) mem buf
            = Some (concat (map (\<lambda>i. dispatch pf uninit mem (fst (frame_at mem (buf, of_nat n) i))) [0..<k]),
                    Returned))"
proof -
  let ?pr = "frame_at mem (buf, of_nat n) k"
  have r: "read_routes pf uninit errno0 (Recv_Ok n sizeof_sockaddr_nl msg_flags) mem buf
           = read_loop pf uninit mem buf msg_flags errno0
               (concat (map (\<lambda>i. dispatch pf uninit mem (fst (frame_at mem (buf, of_nat n) i))) [0..<k]))
               (fst ?pr) (snd ?pr)"
    using assms(1) read_loop_run [OF assms(3), of pf uninit msg_flags errno0 "[]"]
    by (simp add: read_routes_def)
  have c: "frame_cut mem buf ?pr \<Longrightarrow> frame_cut mem buf (fst ?pr, snd ?pr)" by simp
  have s: "short_tail ?pr \<Longrightarrow> short_tail (fst ?pr, snd ?pr)" by simp
  show ?thesis
    using read_loop_cut [OF c assms(2)] read_loop_short [OF s assms(2)]
    by (simp add: r)
qed

theorem read_routes_truncated_batch_witness:
  "(60 :: nat) \<noteq> 0
   \<and> (0x20 :: 32 word) AND MSG_TRUNC \<noteq> 0
   \<and> frame_whole (mem_of cut_batch) 0 (frame_at (mem_of cut_batch) (0, of_nat 60) 0)
   \<and> frame_cut (mem_of cut_batch) 0 (frame_at (mem_of cut_batch) (0, of_nat 60) 1)
   \<and> read_routes build30 (\<lambda>p. replicate 31 0) 0 (Recv_Ok 60 sizeof_sockaddr_nl 0x20)
        (mem_of cut_batch) 0
       = Some ([[[0], [24], [10, 0, 0], [0, 0, 0, 0], [0, 0, 0, 0]],
                [[255], [17], ascii ''truncated message'']], Exited 1)
   \<and> (52 :: nat) \<noteq> 0
   \<and> frame_whole (mem_of tail_batch) 0 (frame_at (mem_of tail_batch) (0, of_nat 52) 0)
   \<and> short_tail (frame_at (mem_of tail_batch) (0, of_nat 52) 1)
   \<and> read_routes build30 (\<lambda>p. replicate 31 0) 0 (Recv_Ok 52 sizeof_sockaddr_nl 0x20)
        (mem_of tail_batch) 0
       = Some ([[[0], [24], [10, 0, 0], [0, 0, 0, 0], [0, 0, 0, 0]]], Returned)"
proof -
  let ?m = "mem_of cut_batch" and ?t = "mem_of tail_batch"
  have a: "(60 :: nat) \<noteq> 0" and a': "(52 :: nat) \<noteq> 0" by simp_all
  have d: "(0x20 :: 32 word) AND MSG_TRUNC \<noteq> 0" by code_simp
  have b0: "frame_whole ?m 0 (frame_at ?m (0, of_nat 60) 0)" by code_simp
  have b: "\<forall>i<1. frame_whole ?m 0 (frame_at ?m (0, of_nat 60) i)"
    using b0 by simp
  have c: "frame_cut ?m 0 (frame_at ?m (0, of_nat 60) 1)" by code_simp
  have b0': "frame_whole ?t 0 (frame_at ?t (0, of_nat 52) 0)" by code_simp
  have b': "\<forall>i<1. frame_whole ?t 0 (frame_at ?t (0, of_nat 52) i)"
    using b0' by simp
  have c': "short_tail (frame_at ?t (0, of_nat 52) 1)" by code_simp
  have e: "dispatch build30 (\<lambda>p. replicate 31 0) ?m 0
           = [[[0], [24], [10, 0, 0], [0, 0, 0, 0], [0, 0, 0, 0]]]"
    by code_simp
  have e': "dispatch build30 (\<lambda>p. replicate 31 0) ?t 0
           = [[[0], [24], [10, 0, 0], [0, 0, 0, 0], [0, 0, 0, 0]]]"
    by code_simp
  have f: "error_reply (error_text build30 0 (ascii ''truncated message''))
           = [[255], [17], ascii ''truncated message'']"
    by code_simp
  note t = read_routes_truncated_batch [OF a d b, of build30 "\<lambda>p. replicate 31 0" 0]
  note t' = read_routes_truncated_batch [OF a' d b', of build30 "\<lambda>p. replicate 31 0" 0]
  show ?thesis
    using a a' b0 b0' c c' d t t' by (simp add: e e' f)
qed

text \<open>
  The statement of the specification (the read attempt ends without terminating the
  process) fails for a datagram of one 8200-byte message cut to the 8192 bytes of the
  buffer.
\<close>

theorem truncated_frame_exits:
  "(0x20 :: 32 word) AND MSG_TRUNC \<noteq> 0
   \<and> (8192 :: 32 word) <s nlmsg_len (mem_of big_frame_hdr) 0
   \<and> read_routes build30 (\<lambda>p. replicate 31 0) 0 (Recv_Ok 8192 sizeof_sockaddr_nl 0x20)
        (mem_of big_frame_hdr) 0
       = Some ([[[255], [17], ascii ''truncated message'']], Exited 1)"
proof -
  have a: "(0x20 :: 32 word) AND MSG_TRUNC \<noteq> 0" by code_simp
  have b: "(8192 :: 32 word) <s nlmsg_len (mem_of big_frame_hdr) 0" by code_simp
  have c: "sizeof_nlmsghdr \<le> scast (8192 :: 32 word)" by code_simp
  have h: "hdr_in_buf 0 0" by code_simp
  have f: "error_reply (error_text build30 0 (ascii ''truncated message''))
           = [[255], [17], ascii ''truncated message'']"
    by code_simp
  have "read_loop build30 (\<lambda>p. replicate 31 0) (mem_of big_frame_hdr) 0 0x20 0 [] 0 8192
        = Some ([[[255], [17], ascii ''truncated message'']], Exited 1)"
    using a b c h by (subst read_loop.simps) (simp add: error_quit_def f)
  then show ?thesis
    using a b by (simp add: read_routes_def sizeof_sockaddr_nl_def)
qed

text \<open>
  C7. Take a batch of \<open>k\<close> whole frames that ends with the last of them, and among them
  a route message that passes the self-origin and main-table filters and whose family is
  neither \<^verbatim>\<open>AF_INET\<close> nor \<^verbatim>\<open>AF_INET6\<close>. For this message exactly one record is
  written, an error record: the bytes 255, 18, "bad message family" (or 255, 20, "wrong
  message length" when the length check rejects the message before its family is looked
  at), and no route event. Processing continues: \<^verbatim>\<open>read_routes\<close> writes what every
  frame of the batch produces, those after the message included, and returns without
  ending the process.
\<close>

theorem bad_family_reported:
  assumes "n \<noteq> 0"
    and "\<forall>i<k. frame_whole mem buf (frame_at mem (buf, of_nat n) i)"
    and "snd (frame_at mem (buf, of_nat n) k) = 0"
    and "j < k" and "p = fst (frame_at mem (buf, of_nat n) j)"
    and "nlmsg_type mem p = RTM_NEWROUTE \<or> nlmsg_type mem p = RTM_DELROUTE"
    and "uint (rtm_protocol mem (NLMSG_DATA p)) \<noteq> RTPROT_ROUTEMACHINE pf"
    and "rtm_table mem (NLMSG_DATA p) = RT_TABLE_MAIN"
    and "rtm_family mem (NLMSG_DATA p) \<noteq> AF_INET"
    and "rtm_family mem (NLMSG_DATA p) \<noteq> AF_INET6"
  shows "read_routes pf uninit errno0 (Recv_Ok n sizeof_sockaddr_nl msg_flags) mem buf
         = Some (concat (map (\<lambda>i. dispatch pf uninit mem (fst (frame_at mem (buf, of_nat n) i))) [0..<k]),
                 Returned)
         \<and> dispatch pf uninit mem p
             = [error_reply (if notify_len mem p <s 0 then ascii ''wrong message length''
                             else ascii ''bad message family'')]
         \<and> concat (concat (dispatch pf uninit mem p))
             = (if notify_len mem p <s 0 then 255 # 20 # ascii ''wrong message length''
                else 255 # 18 # ascii ''bad message family'')"
proof -
  let ?pr = "frame_at mem (buf, of_nat n) k"
  have "read_routes pf uninit errno0 (Recv_Ok n sizeof_sockaddr_nl msg_flags) mem buf
           = read_loop pf uninit mem buf msg_flags errno0
               (concat (map (\<lambda>i. dispatch pf uninit mem (fst (frame_at mem (buf, of_nat n) i))) [0..<k]))
               (fst ?pr) (snd ?pr)"
    using assms(1) read_loop_run [OF assms(2), of pf uninit msg_flags errno0 "[]"]
    by (simp add: read_routes_def)
  then have r: "read_routes pf uninit errno0 (Recv_Ok n sizeof_sockaddr_nl msg_flags) mem buf
         = Some (concat (map (\<lambda>i. dispatch pf uninit mem (fst (frame_at mem (buf, of_nat n) i))) [0..<k]),
                 Returned)"
    by (simp only: assms(3) read_loop_done)
  have t: "nlmsg_type mem p \<noteq> NLMSG_DONE"
    using assms(6) by (auto simp add: RTM_NEWROUTE_def RTM_DELROUTE_def NLMSG_DONE_def)
  have d: "dispatch pf uninit mem p
             = [error_reply (if notify_len mem p <s 0 then ascii ''wrong message length''
                             else ascii ''bad message family'')]"
    using t assms(6-10) by (auto simp add: dispatch_def notify_def Let_def)
  have c: "concat (concat (dispatch pf uninit mem p))
             = (if notify_len mem p <s 0 then 255 # 20 # ascii ''wrong message length''
                else 255 # 18 # ascii ''bad message family'')"
    by (simp add: d error_reply_def RTM_CMD_ROUTE_ERR_def ascii_def)
  show ?thesis using r d c by blast
qed

theorem bad_family_reported_witness:
  "(80 :: nat) \<noteq> 0
   \<and> frame_whole (mem_of two_batch) 0 (frame_at (mem_of two_batch) (0, of_nat 80) 0)
   \<and> frame_whole (mem_of two_batch) 0 (frame_at (mem_of two_batch) (0, of_nat 80) 1)
   \<and> snd (frame_at (mem_of two_batch) (0, of_nat 80) 2) = 0
   \<and> (0 :: nat) < 2
   \<and> (0 :: addr) = fst (frame_at (mem_of two_batch) (0, of_nat 80) 0)
   \<and> (nlmsg_type (mem_of two_batch) 0 = RTM_NEWROUTE \<or> nlmsg_type (mem_of two_batch) 0 = RTM_DELROUTE)
   \<and> uint (rtm_protocol (mem_of two_batch) (NLMSG_DATA 0)) \<noteq> RTPROT_ROUTEMACHINE build30
   \<and> rtm_table (mem_of two_batch) (NLMSG_DATA 0) = RT_TABLE_MAIN
   \<and> rtm_family (mem_of two_batch) (NLMSG_DATA 0) \<noteq> AF_INET
   \<and> rtm_family (mem_of two_batch) (NLMSG_DATA 0) \<noteq> AF_INET6
   \<and> read_routes build30 (\<lambda>p. replicate 31 0) 0 (Recv_Ok 80 sizeof_sockaddr_nl 0)
        (mem_of two_batch) 0
       = Some ([[[255], [18], ascii ''bad message family''],
                [[0], [24], [10, 0, 0], [0, 0, 0, 0], [0, 0, 0, 0]]], Returned)
   \<and> concat (concat (dispatch build30 (\<lambda>p. replicate 31 0) (mem_of two_batch) 0))
       = 255 # 18 # ascii ''bad message family''"
proof -
  let ?m = "mem_of two_batch"
  have a: "(80 :: nat) \<noteq> 0" by simp
  have b0: "frame_whole ?m 0 (frame_at ?m (0, of_nat 80) 0)" by code_simp
  have b1: "frame_whole ?m 0 (frame_at ?m (0, of_nat 80) 1)" by code_simp
  have b: "\<forall>i<2. frame_whole ?m 0 (frame_at ?m (0, of_nat 80) i)"
    using b0 b1 by (simp add: less_Suc_eq numeral_2_eq_2)
  have c: "snd (frame_at ?m (0, of_nat 80) 2) = 0" by code_simp
  have j: "(0 :: nat) < 2" by simp
  have p: "(0 :: addr) = fst (frame_at ?m (0, of_nat 80) 0)" by simp
  have t: "nlmsg_type ?m 0 = RTM_NEWROUTE \<or> nlmsg_type ?m 0 = RTM_DELROUTE" by code_simp
  have o: "uint (rtm_protocol ?m (NLMSG_DATA 0)) \<noteq> RTPROT_ROUTEMACHINE build30" by code_simp
  have m: "rtm_table ?m (NLMSG_DATA 0) = RT_TABLE_MAIN" by code_simp
  have f4: "rtm_family ?m (NLMSG_DATA 0) \<noteq> AF_INET" by code_simp
  have f6: "rtm_family ?m (NLMSG_DATA 0) \<noteq> AF_INET6" by code_simp
  have l: "\<not> notify_len ?m 0 <s 0" by code_simp
  have d1: "dispatch build30 (\<lambda>p. replicate 31 0) ?m (fst (frame_at ?m (0, of_nat 80) 1))
            = [[[0], [24], [10, 0, 0], [0, 0, 0, 0], [0, 0, 0, 0]]]"
    by code_simp
  have e: "error_reply (ascii ''bad message family'') = [[255], [18], ascii ''bad message family'']"
    by code_simp
  note th = bad_family_reported [OF a b c j p t o m f4 f6, of "\<lambda>p. replicate 31 0" 0 0]
  have u: "[0..<2] = [0, 1]" by (simp add: upt_rec)
  show ?thesis
    using a b0 b1 c j t o m f4 f6 l th d1 by (simp add: u e)
qed

subsection \<open>Receive errors\<close>

text \<open>
  C8 (as amended). A receive error \<^verbatim>\<open>EINTR\<close>, \<^verbatim>\<open>EAGAIN\<close> or \<^verbatim>\<open>ENOBUFS\<close> ends the
  read attempt with no output, and the event loop goes on; of the program's state only
  \<^verbatim>\<open>errno\<close> has changed, which now holds the number of that error. Any other receive
  error writes one error record and ends the process with status 1; so does a receive
  of zero bytes, with the message "recvmsg: EOF".
\<close>

theorem read_routes_recv_classes:
  "(e = EINTR \<or> e = EAGAIN \<or> e = ENOBUFS \<longrightarrow>
      read_routes pf uninit errno0 (Recv_Failed e) mem buf = Some ([], Returned)
      \<and> channel_read pf errno0 \<lparr>ci_recv = Recv_Failed e, ci_mem = mem, ci_buf = buf, ci_uninit = uninit\<rparr>
          = ([Read_Routes], Go e))
   \<and> (e \<noteq> EINTR \<and> e \<noteq> EAGAIN \<and> e \<noteq> ENOBUFS \<longrightarrow>
      read_routes pf uninit errno0 (Recv_Failed e) mem buf
        = Some ([error_reply (error_text pf e (ascii ''recvmsg''))], Exited 1)
      \<and> channel_read pf errno0 \<lparr>ci_recv = Recv_Failed e, ci_mem = mem, ci_buf = buf, ci_uninit = uninit\<rparr>
          = ([Read_Routes, Writev (error_reply (error_text pf e (ascii ''recvmsg'')))], Stop (Exit 1)))
   \<and> read_routes pf uninit errno0 (Recv_Ok 0 msg_namelen msg_flags) mem buf
        = Some ([error_reply (error_text pf errno0 (ascii ''recvmsg: EOF''))], Exited 1)
   \<and> channel_read pf errno0 \<lparr>ci_recv = Recv_Ok 0 msg_namelen msg_flags, ci_mem = mem, ci_buf = buf,
                              ci_uninit = uninit\<rparr>
        = ([Read_Routes, Writev (error_reply (error_text pf errno0 (ascii ''recvmsg: EOF'')))],
           Stop (Exit 1))"
  by (auto simp add: read_routes_def error_quit_def channel_read_def)

theorem read_routes_recv_classes_witness:
  "(EAGAIN = EINTR \<or> EAGAIN = EAGAIN \<or> EAGAIN = ENOBUFS)
   \<and> read_routes build30 (\<lambda>p. replicate 31 0) 0 (Recv_Failed EAGAIN) (mem_of []) 0
       = Some ([], Returned)
   \<and> channel_read build30 0 no_input = ([Read_Routes], Go EAGAIN)
   \<and> (9 \<noteq> EINTR \<and> 9 \<noteq> EAGAIN \<and> 9 \<noteq> ENOBUFS)
   \<and> read_routes build30 (\<lambda>p. replicate 31 0) 0 (Recv_Failed 9) (mem_of []) 0
       = Some ([[[255], [14], ascii ''recvmsg: error'']], Exited 1)
   \<and> read_routes build30 (\<lambda>p. replicate 31 0) 0 (Recv_Ok 0 12 0) (mem_of []) 0
       = Some ([[[255], [12], ascii ''recvmsg: EOF'']], Exited 1)"
proof -
  have a: "EAGAIN = EINTR \<or> EAGAIN = EAGAIN \<or> EAGAIN = ENOBUFS" by simp
  have b: "9 \<noteq> EINTR \<and> 9 \<noteq> EAGAIN \<and> 9 \<noteq> ENOBUFS"
    by (simp add: EINTR_def EAGAIN_def ENOBUFS_def)
  have c: "error_reply (error_text build30 9 (ascii ''recvmsg''))
           = [[255], [14], ascii ''recvmsg: error'']"
    by code_simp
  have d: "error_reply (error_text build30 0 (ascii ''recvmsg: EOF''))
           = [[255], [12], ascii ''recvmsg: EOF'']"
    by code_simp
  have n: "no_input = \<lparr>ci_recv = Recv_Failed EAGAIN, ci_mem = mem_of [], ci_buf = 0,
                ci_uninit = (\<lambda>p. replicate 31 0)\<rparr>"
    by (simp add: no_input_def)
  note t1 = read_routes_recv_classes [of EAGAIN build30 "\<lambda>p. replicate 31 0" 0 "mem_of []" 0 12 0]
  note t2 = read_routes_recv_classes [of 9 build30 "\<lambda>p. replicate 31 0" 0 "mem_of []" 0 12 0]
  show ?thesis
    using a b t1 t2 by (simp add: c d n)
qed

text \<open>
  The statement of the specification (no state change) fails: after a receive that failed
  with \<^verbatim>\<open>EAGAIN\<close>, \<^verbatim>\<open>errno\<close> is 11 where it was 0, and the change shows in the text
  of a later fatal error record, which gains the description of that error.
\<close>

theorem transient_error_changes_errno:
  "channel_read build30 0 no_input = ([Read_Routes], Go 11)
   \<and> main_loop build30 (False, 0) [wake_bad]
       = ([Read_Routes, Writev [[255], [17], ascii ''malformed message'']], Exit 1)
   \<and> main_loop build30 (False, 0) [wake_again, wake_bad]
       = ([Read_Routes, Read_Routes, Writev [[255], [24], ascii ''malformed message: error'']],
          Exit 1)"
  by code_simp

subsection \<open>The dump request\<close>

lemma then_step_alt:
  "then_step r f =
     (case snd r of
        Stop s \<Rightarrow> (fst r, Stop s)
      | Go x \<Rightarrow> (fst r @ fst (f x), snd (f x)))"
  by (cases r) (simp add: then_step_def split: step.splits prod.splits)

lemma dump_step_alt:
  "dump_step pf errno w =
     (Request_Dump # fst (channel_read pf (case w_send w of Send_Failed e \<Rightarrow> e | Send_Ok \<Rightarrow> errno)
                         (w_first w)),
      snd (channel_read pf (case w_send w of Send_Failed e \<Rightarrow> e | Send_Ok \<Rightarrow> errno)
             (w_first w)))"
  by (simp add: dump_step_def Let_def split: prod.splits)

lemma main_loop_Go:
  "main_iter pf st w = (t, Go st') \<Longrightarrow>
   main_loop pf st (w # ws) = (t @ fst (main_loop pf st' ws), snd (main_loop pf st' ws))"
  by (simp split: prod.splits)

lemma main_loop_Stop:
  "main_iter pf st w = (t, Stop s) \<Longrightarrow> main_loop pf st (w # ws) = (t, s)"
  by simp

lemma channel_read_trace:
  "\<exists>t. fst (channel_read pf errno c) = Read_Routes # t \<and> Request_Dump \<notin> set t"
  by (auto simp add: channel_read_def split: option.splits outcome.splits prod.splits)

lemma stdin_step_no_dump: "Request_Dump \<notin> set (fst (stdin_step pf errno r))"
  by (auto simp add: stdin_step_def split: read_result.splits)

lemma dump_step_trace:
  "\<exists>t. fst (dump_step pf errno w) = Request_Dump # Read_Routes # t \<and> Request_Dump \<notin> set t"
  using channel_read_trace [of pf _ "w_first w"]
  by (simp add: dump_step_alt)

lemma channel_read_no_dump: "Request_Dump \<notin> set (fst (channel_read pf e c))"
  by (auto simp add: channel_read_def split: option.splits outcome.splits prod.splits)

lemma then_step_trace:
  "fst (then_step r f) = fst r @ (case snd r of Stop s \<Rightarrow> [] | Go x \<Rightarrow> fst (f x))"
  by (simp add: then_step_alt split: step.splits)

lemma then_step_Go_trace:
  "snd r = Go x \<Longrightarrow> fst (then_step r f) = fst r @ fst (f x)"
  by (simp add: then_step_alt)

lemma then_step_no_dump:
  assumes "Request_Dump \<notin> set (fst r)" and "\<And>x. Request_Dump \<notin> set (fst (f x))"
  shows "Request_Dump \<notin> set (fst (then_step r f))"
  using assms by (simp add: then_step_alt split: step.splits)

lemma then_step_Go:
  "snd (then_step r f) = Go y \<Longrightarrow> \<exists>x. snd r = Go x \<and> snd (f x) = Go y"
  by (auto simp add: then_step_alt split: step.splits)

lemma main_iter_disarms: "main_iter pf st w = (t, Go st') \<Longrightarrow> \<not> fst st'"
proof (cases "w_select w")
  case (Select_Failed x)
  assume "main_iter pf st w = (t, Go st')"
  then show ?thesis using Select_Failed by (simp add: main_iter_def)
next
  case (Select_Ok sr rd wr)
  assume "main_iter pf st w = (t, Go st')"
  then have "snd (main_iter pf st w) = Go st'" by simp
  then show ?thesis
    unfolding main_iter_def Select_Ok select_result.case Let_def
    by (auto dest!: then_step_Go split: if_splits)
qed

lemma main_iter_unarmed_no_dump: "Request_Dump \<notin> set (fst (main_iter pf (False, e) w))"
proof (cases "w_select w")
  case (Select_Failed x)
  then show ?thesis by (auto simp add: main_iter_def error_quit_def)
next
  case (Select_Ok sr rd wr)
  show ?thesis
    unfolding main_iter_def Select_Ok select_result.case Let_def
    by (intro then_step_no_dump) (simp_all add: stdin_step_no_dump channel_read_no_dump)
qed

lemma main_loop_unarmed_no_dump: "Request_Dump \<notin> set (fst (main_loop pf (False, e) ws))"
proof (induction ws arbitrary: e)
  case Nil
  then show ?case by simp
next
  case (Cons w ws)
  obtain t s where i: "main_iter pf (False, e) w = (t, s)"
    by (cases "main_iter pf (False, e) w")
  have t: "Request_Dump \<notin> set t"
    using main_iter_unarmed_no_dump [of pf e w] by (simp add: i)
  show ?case
  proof (cases s)
    case (Stop x)
    then show ?thesis using i t by (simp add: main_loop_Stop)
  next
    case (Go st')
    then have "\<not> fst st'" using main_iter_disarms [of pf "(False, e)" w t st'] i by simp
    then obtain e' where "st' = (False, e')" by (cases st') simp
    then show ?thesis using i t Go Cons.IH [of e'] by (simp add: main_loop_Go del: main_loop.simps)
  qed
qed

lemma main_loop_later:
  "\<exists>later. fst (main_loop pf st (w # rest)) = fst (main_iter pf st w) @ later
           \<and> Request_Dump \<notin> set later"
proof -
  obtain t s where i: "main_iter pf st w = (t, s)"
    by (cases "main_iter pf st w")
  show ?thesis
  proof (cases s)
    case (Stop x)
    then show ?thesis using i by (simp add: main_loop_Stop)
  next
    case (Go st')
    then have "\<not> fst st'" using main_iter_disarms [of pf st w t st'] i by simp
    then obtain e' where "st' = (False, e')" by (cases st') simp
    then show ?thesis using i Go main_loop_unarmed_no_dump [of pf e' rest]
      by (simp add: main_loop_Go del: main_loop.simps)
  qed
qed

lemma first_iter_fires:
  assumes "dump_fires pf e w"
  shows "\<exists>pre post. fst (main_iter pf (True, e) w) = pre @ Request_Dump # Read_Routes # post
           \<and> Request_Dump \<notin> set pre \<and> Request_Dump \<notin> set post"
proof (cases "w_select w")
  case (Select_Failed x)
  then show ?thesis using assms by (simp add: dump_fires_def)
next
  case (Select_Ok sr rd wr)
  have wr: wr using assms Select_Ok by (simp add: dump_fires_def)
  let ?r1 = "if sr then stdin_step pf e (w_stdin w) else ([], Go e)"
  have "\<exists>e1. snd ?r1 = Go e1"
    using assms Select_Ok by (cases sr) (auto simp add: dump_fires_def split: step.splits)
  then obtain e1 where g: "snd ?r1 = Go e1" ..
  have p: "Request_Dump \<notin> set (fst ?r1)"
    using stdin_step_no_dump [of pf e "w_stdin w"] by simp
  obtain t where d: "fst (dump_step pf e1 w) = Request_Dump # Read_Routes # t" and t: "Request_Dump \<notin> set t"
    using dump_step_trace [of pf e1 w] by blast
  let ?k = "\<lambda>e2. then_step (if rd then channel_read pf e2 (w_second w) else ([], Go e2))
                    (\<lambda>e3. ([], Go (False, e3)))"
  have k: "\<And>e2. Request_Dump \<notin> set (fst (?k e2))"
    by (intro then_step_no_dump) (simp_all add: channel_read_no_dump)
  define post where "post = t @ (case snd (dump_step pf e1 w) of Stop s \<Rightarrow> [] | Go x \<Rightarrow> fst (?k x))"
  have po: "Request_Dump \<notin> set post"
    using t k by (auto simp add: post_def split: step.splits)
  have mi: "main_iter pf (True, e) w = then_step ?r1 (\<lambda>e1. then_step (dump_step pf e1 w) ?k)"
    using wr by (simp add: main_iter_def Select_Ok Let_def)
  have "fst (main_iter pf (True, e) w) = fst ?r1 @ fst (then_step (dump_step pf e1 w) ?k)"
    by (simp only: mi then_step_Go_trace [OF g])
  also have "fst (then_step (dump_step pf e1 w) ?k) = Request_Dump # Read_Routes # post"
    by (simp only: then_step_trace d post_def append_Cons)
  finally show ?thesis using p po by blast
qed

lemma first_iter_silent:
  assumes "\<not> dump_fires pf e w"
  shows "Request_Dump \<notin> set (fst (main_iter pf (True, e) w))"
proof (cases "w_select w")
  case (Select_Failed x)
  then show ?thesis by (auto simp add: main_iter_def error_quit_def)
next
  case (Select_Ok sr rd wr)
  show ?thesis
  proof (cases wr)
    case False
    show ?thesis
      unfolding main_iter_def Select_Ok select_result.case Let_def
      using False
      by (intro then_step_no_dump) (simp_all add: stdin_step_no_dump channel_read_no_dump)
  next
    case True
    then obtain s where "sr" and "snd (stdin_step pf e (w_stdin w)) = Stop s"
      using assms Select_Ok by (auto simp add: dump_fires_def split: step.splits if_splits)
    then show ?thesis
      unfolding main_iter_def Select_Ok select_result.case Let_def
      by (simp add: then_step_alt stdin_step_no_dump)
  qed
qed

lemma count_list_one:
  assumes "d \<notin> set pre" and "d \<notin> set post" and "r \<noteq> d"
  shows "count_list (pre @ d # r # post) d = 1"
  using assms by (simp add: count_list_0_iff)

lemma only_at:
  assumes "d \<notin> set pre" and "d \<notin> set post" and "r \<noteq> d"
    and "i < length (pre @ d # r # post)" and "(pre @ d # r # post) ! i = d"
  shows "i = length pre"
proof (rule ccontr)
  assume n: "i \<noteq> length pre"
  show False
  proof (cases "i < length pre")
    case True
    then have "(pre @ d # r # post) ! i \<in> set pre" by (simp add: nth_append)
    then show False using assms(1,5) by simp
  next
    case False
    then obtain j where j: "i = length pre + Suc j"
      using n by (metis add_Suc_right less_imp_Suc_add linorder_neqE_nat)
    then have e: "(pre @ d # r # post) ! i = (r # post) ! j" by (simp add: nth_append)
    have "j < length (r # post)" using assms(4) j by simp
    then have "(r # post) ! j \<in> set (r # post)" by (rule nth_mem)
    then show False using assms(2,3,5) e by auto
  qed
qed

text \<open>
  C9 (as amended). In every execution of the event loop \<^verbatim>\<open>request_dump\<close> is called at
  most once, and a call is immediately followed by a call of \<^verbatim>\<open>read_routes\<close> in the
  same iteration. When the first wake-up reports the socket writable and the handling
  of the control input does not end the process before, the request is issued in that
  iteration, once, and in no later one. When \<^verbatim>\<open>select\<close> fails at the first wake-up, or
  the first wake-up reports the socket writable and the handling of the control input
  ends the process, the request is never issued. (Nothing is said here of an execution
  whose first wake-up does not report the socket writable.)
\<close>

theorem dump_request_one_shot:
  "count_list (fst (event_loop pf errno ws)) Request_Dump \<le> 1
   \<and> (\<forall>i. i < length (fst (event_loop pf errno ws))
           \<and> fst (event_loop pf errno ws) ! i = Request_Dump \<longrightarrow>
         Suc i < length (fst (event_loop pf errno ws))
         \<and> fst (event_loop pf errno ws) ! Suc i = Read_Routes)
   \<and> (ws = w # rest \<and> dump_fires pf errno w \<longrightarrow>
         (\<exists>pre post. fst (event_loop pf errno ws) = pre @ Request_Dump # Read_Routes # post
            \<and> Request_Dump \<notin> set pre \<and> Request_Dump \<notin> set post
            \<and> length pre < length (fst (main_iter pf (True, errno) w))))
   \<and> (ws = w # rest \<and> \<not> dump_fires pf errno w
        \<and> (\<forall>stdin_readable sock_readable.
              w_select w \<noteq> Select_Ok stdin_readable sock_readable False) \<longrightarrow>
         Request_Dump \<notin> set (fst (event_loop pf errno ws)))"
proof -
  let ?tr = "fst (event_loop pf errno ws)"
  have shape: "Request_Dump \<notin> set ?tr
      \<or> (\<exists>pre post. ?tr = pre @ Request_Dump # Read_Routes # post
            \<and> Request_Dump \<notin> set pre \<and> Request_Dump \<notin> set post)"
  proof (cases ws)
    case Nil
    then show ?thesis by (simp add: event_loop_def)
  next
    case (Cons v vs)
    obtain later where l: "fst (main_loop pf (True, errno) (v # vs))
                           = fst (main_iter pf (True, errno) v) @ later"
      and later: "Request_Dump \<notin> set later"
      using main_loop_later [of pf "(True, errno)" v vs] by blast
    show ?thesis
    proof (cases "dump_fires pf errno v")
      case True
      obtain pre post where i: "fst (main_iter pf (True, errno) v)
                                = pre @ Request_Dump # Read_Routes # post"
        and pre: "Request_Dump \<notin> set pre" and post: "Request_Dump \<notin> set post"
        using first_iter_fires [OF True] by blast
      have "?tr = pre @ Request_Dump # Read_Routes # (post @ later)"
        using Cons l i by (simp add: event_loop_def)
      moreover have "Request_Dump \<notin> set (post @ later)" using post later by simp
      ultimately show ?thesis using pre by blast
    next
      case False
      then show ?thesis
        using Cons l later first_iter_silent [OF False] by (simp add: event_loop_def)
    qed
  qed
  have c1: "count_list ?tr Request_Dump \<le> 1"
    using shape count_list_one [of Request_Dump _ _ Read_Routes]
    by (auto simp add: count_list_0_iff)
  have c2: "\<forall>i. i < length ?tr \<and> ?tr ! i = Request_Dump \<longrightarrow>
              Suc i < length ?tr \<and> ?tr ! Suc i = Read_Routes"
  proof (intro allI impI)
    fix i assume a: "i < length ?tr \<and> ?tr ! i = Request_Dump"
    then have "Request_Dump \<in> set ?tr" using nth_mem by fastforce
    then obtain pre post where t: "?tr = pre @ Request_Dump # Read_Routes # post"
      and pre: "Request_Dump \<notin> set pre" and post: "Request_Dump \<notin> set post"
      using shape by blast
    have "i = length pre"
      using only_at [OF pre post, of Read_Routes i] a t by simp
    then show "Suc i < length ?tr \<and> ?tr ! Suc i = Read_Routes"
      by (simp add: t nth_append)
  qed
  have c3: "\<exists>pre post. ?tr = pre @ Request_Dump # Read_Routes # post
            \<and> Request_Dump \<notin> set pre \<and> Request_Dump \<notin> set post
            \<and> length pre < length (fst (main_iter pf (True, errno) w))"
    if h: "ws = w # rest \<and> dump_fires pf errno w"
  proof -
    obtain pre post where i: "fst (main_iter pf (True, errno) w)
                              = pre @ Request_Dump # Read_Routes # post"
      and pre: "Request_Dump \<notin> set pre" and post: "Request_Dump \<notin> set post"
      using first_iter_fires [of pf errno w] h by blast
    obtain later where l: "fst (main_loop pf (True, errno) (w # rest))
                           = fst (main_iter pf (True, errno) w) @ later"
      and later: "Request_Dump \<notin> set later"
      using main_loop_later [of pf "(True, errno)" w rest] by blast
    have "?tr = pre @ Request_Dump # Read_Routes # (post @ later)"
      using h l i by (simp add: event_loop_def)
    moreover have "Request_Dump \<notin> set (post @ later)" using post later by simp
    moreover have "length pre < length (fst (main_iter pf (True, errno) w))"
      by (simp add: i)
    ultimately show ?thesis using pre by blast
  qed
  have c4: "Request_Dump \<notin> set ?tr"
    if h: "ws = w # rest \<and> \<not> dump_fires pf errno w
        \<and> (\<forall>stdin_readable sock_readable.
              w_select w \<noteq> Select_Ok stdin_readable sock_readable False)"
  proof -
    obtain later where l: "fst (main_loop pf (True, errno) (w # rest))
                           = fst (main_iter pf (True, errno) w) @ later"
      and later: "Request_Dump \<notin> set later"
      using main_loop_later [of pf "(True, errno)" w rest] by blast
    have n: "\<not> dump_fires pf errno w" using h by simp
    show ?thesis
      using h l later first_iter_silent [OF n] by (simp add: event_loop_def)
  qed
  show ?thesis using c1 c2 c3 c4 by blast
qed

theorem dump_request_one_shot_witness:
  "dump_fires build30 0 wake_writable
   \<and> fst (event_loop build30 0 [wake_writable, wake_readable])
       = [Request_Dump, Read_Routes, Read_Routes,
          Writev [[0], [24], [10, 0, 0], [0, 0, 0, 0], [0, 0, 0, 0]]]
   \<and> count_list (fst (event_loop build30 0 [wake_writable, wake_readable])) Request_Dump \<le> 1
   \<and> fst (event_loop build30 0 [wake_writable, wake_readable]) ! 0 = Request_Dump
   \<and> fst (event_loop build30 0 [wake_writable, wake_readable]) ! Suc 0 = Read_Routes
   \<and> (\<exists>pre post. fst (event_loop build30 0 [wake_writable, wake_readable])
          = pre @ Request_Dump # Read_Routes # post
          \<and> Request_Dump \<notin> set pre \<and> Request_Dump \<notin> set post
          \<and> length pre < length (fst (main_iter build30 (True, 0) wake_writable)))
   \<and> \<not> dump_fires build30 0 wake_eof
   \<and> w_select wake_eof = Select_Ok True False True
   \<and> Request_Dump \<notin> set (fst (event_loop build30 0 [wake_eof, wake_readable]))"
proof -
  have a: "dump_fires build30 0 wake_writable" by code_simp
  have b: "\<not> dump_fires build30 0 wake_eof" by code_simp
  have s: "w_select wake_eof = Select_Ok True False True" by code_simp
  have c: "fst (event_loop build30 0 [wake_writable, wake_readable])
       = [Request_Dump, Read_Routes, Read_Routes,
          Writev [[0], [24], [10, 0, 0], [0, 0, 0, 0], [0, 0, 0, 0]]]"
    by code_simp
  note t1 = dump_request_one_shot [of build30 0 "[wake_writable, wake_readable]" wake_writable
      "[wake_readable]"]
  note t2 = dump_request_one_shot [of build30 0 "[wake_eof, wake_readable]" wake_eof
      "[wake_readable]"]
  have e: "Request_Dump \<notin> set (fst (event_loop build30 0 [wake_eof, wake_readable]))"
    using t2 b s by simp
  have f: "\<exists>pre post. fst (event_loop build30 0 [wake_writable, wake_readable])
          = pre @ Request_Dump # Read_Routes # post
          \<and> Request_Dump \<notin> set pre \<and> Request_Dump \<notin> set post
          \<and> length pre < length (fst (main_iter build30 (True, 0) wake_writable))"
    using t1 a by simp
  have g: "count_list (fst (event_loop build30 0 [wake_writable, wake_readable])) Request_Dump \<le> 1"
    using t1 by blast
  show ?thesis
    using a b s e f g by (simp add: c)
qed

text \<open>
  The statement of the specification (exactly once in every execution) fails when the
  parent has closed the control input by the first wake-up: the socket is reported
  writable, and the process exits with status 0 without having issued the request.
\<close>

theorem stdin_eof_before_dump:
  "dump_fires build30 0 wake_eof = False
   \<and> w_select wake_eof = Select_Ok True False True
   \<and> event_loop build30 0 [wake_eof] = ([Close_Sock], Exit 0)
   \<and> count_list (fst (event_loop build30 0 [wake_eof])) Request_Dump \<noteq> 1"
  by code_simp

end
